theory Spec2Isabelle
  imports Main
begin

unbundle bit_operations_syntax

section \<open>Values of the embedded page data\<close>

text \<open>
  The extractors of \<^verbatim>\<open>youtube_dl/extractor/abc.py\<close> work on whatever the JSON
  parser returns. A Python value coming out of \<^verbatim>\<open>json.loads\<close> is \<^verbatim>\<open>None\<close>, a bool,
  an int, a float, a string, a list or a dict. A dict is kept as the association list
  of its items (keys distinct); strings are byte strings in UTF-8. Python's \<^verbatim>\<open>None\<close>
  and JSON's \<^verbatim>\<open>null\<close> are the same value \<open>JNull\<close>.
\<close>

datatype pyfloat = Finite int int | PosInf | NegInf | NaN

datatype json =
    JNull
  | JBool bool
  | JInt int
  | JFloat pyfloat
  | JStr string
  | JList "json list"
  | JObj "(string \<times> json) list"

text \<open>
  Everything the two \<^verbatim>\<open>_real_extract\<close> methods can raise. \<open>ExtractorError msg expected\<close>
  carries the message and the \<^verbatim>\<open>expected\<close> flag given to the constructor; the
  other constructors are the Python faults of the unguarded accesses.
  \<open>NoStreamAvailable\<close> is the failure of the host's format sorting on an empty list.
\<close>

datatype error =
    ExtractorError string bool
  | KeyError string
  | TypeError
  | AttributeError
  | StopIteration
  | UnboundLocalError string
  | AssertionError
  | HostError string
  | NoStreamAvailable

subsection \<open>Python operations on these values\<close>

text \<open>Truth value of a Python object, as \<^verbatim>\<open>or\<close>, \<^verbatim>\<open>if x:\<close> and \<^verbatim>\<open>if not x:\<close> test it.\<close>

fun truthy :: "json \<Rightarrow> bool" where
  "truthy JNull = False"
| "truthy (JBool b) = b"
| "truthy (JInt n) = (n \<noteq> 0)"
| "truthy (JFloat (Finite m e)) = (m \<noteq> 0)"
| "truthy (JFloat _) = True"
| "truthy (JStr s) = (s \<noteq> [])"
| "truthy (JList xs) = (xs \<noteq> [])"
| "truthy (JObj kvs) = (kvs \<noteq> [])"

text \<open>\<^verbatim>\<open>d.get(k)\<close> on a dict: the value, or \<^verbatim>\<open>None\<close> when the key is missing.\<close>

definition dict_get :: "(string \<times> json) list \<Rightarrow> string \<Rightarrow> json" where
  "dict_get kvs k = (case map_of kvs k of None \<Rightarrow> JNull | Some v \<Rightarrow> v)"

text \<open>\<^verbatim>\<open>d.get(k, default)\<close> on a dict.\<close>

definition dict_get_default :: "(string \<times> json) list \<Rightarrow> string \<Rightarrow> json \<Rightarrow> json" where
  "dict_get_default kvs k d = (case map_of kvs k of None \<Rightarrow> d | Some v \<Rightarrow> v)"

text \<open>\<^verbatim>\<open>x.get(k)\<close> on any value: only a dict has the method.\<close>

fun py_get :: "json \<Rightarrow> string \<Rightarrow> error + json" where
  "py_get (JObj kvs) k = Inr (dict_get kvs k)"
| "py_get _ k = Inl AttributeError"

text \<open>
  \<^verbatim>\<open>x[k]\<close> with a string key: a dict raises \<^verbatim>\<open>KeyError\<close> on a missing key, every
  other value raises \<^verbatim>\<open>TypeError\<close>.
\<close>

fun py_item :: "json \<Rightarrow> string \<Rightarrow> error + json" where
  "py_item (JObj kvs) k = (case map_of kvs k of None \<Rightarrow> Inl (KeyError k) | Some v \<Rightarrow> Inr v)"
| "py_item _ k = Inl TypeError"

text \<open>
  Iterating a value: a list gives its elements, a dict its keys, a string its
  characters; the other values are not iterable.
\<close>

fun py_iter :: "json \<Rightarrow> error + json list" where
  "py_iter (JList xs) = Inr xs"
| "py_iter (JObj kvs) = Inr (map (\<lambda>kv. JStr (fst kv)) kvs)"
| "py_iter (JStr s) = Inr (map (\<lambda>c. JStr [c]) s)"
| "py_iter _ = Inl TypeError"

text \<open>Decimal rendering of an int, as \<^verbatim>\<open>str.format\<close> prints it.\<close>

fun dec_pos :: "int \<Rightarrow> string" where
  "dec_pos n =
     (if n < 10 then [''0123456789'' ! nat n]
      else dec_pos (n div 10) @ [''0123456789'' ! nat (n mod 10)])"

definition dec_int :: "int \<Rightarrow> string" where
  "dec_int n = (if n < 0 then CHR ''-'' # dec_pos (- n) else dec_pos n)"

section \<open>SHA-256 and HMAC\<close>

text \<open>
  \<^verbatim>\<open>hashlib.sha256\<close> (FIPS 180-4) and \<^verbatim>\<open>hmac.new(key, msg, hashlib.sha256)\<close>
  (RFC 2104), which lines 139 to 141 call. A 32-bit word is an \<open>int\<close> in
  \<open>{0..<2^32}\<close> with the wrap-around of the addition written out; a byte is an \<open>int\<close>
  in \<open>{0..<256}\<close>. The round constants and the initial hash value are the standard's,
  written in decimal.
\<close>

type_synonym u32 = int
type_synonym byte = int

definition add32 :: "u32 \<Rightarrow> u32 \<Rightarrow> u32" where
  "add32 a b = (a + b) mod 4294967296"

definition rotr :: "nat \<Rightarrow> u32 \<Rightarrow> u32" where
  "rotr n x = drop_bit n x OR take_bit 32 (push_bit (32 - n) x)"

definition ch :: "u32 \<Rightarrow> u32 \<Rightarrow> u32 \<Rightarrow> u32" where
  "ch x y z = (x AND y) XOR (take_bit 32 (NOT x) AND z)"

definition maj :: "u32 \<Rightarrow> u32 \<Rightarrow> u32 \<Rightarrow> u32" where
  "maj x y z = (x AND y) XOR (x AND z) XOR (y AND z)"

definition bsig0 :: "u32 \<Rightarrow> u32" where
  "bsig0 x = rotr 2 x XOR rotr 13 x XOR rotr 22 x"

definition bsig1 :: "u32 \<Rightarrow> u32" where
  "bsig1 x = rotr 6 x XOR rotr 11 x XOR rotr 25 x"

definition ssig0 :: "u32 \<Rightarrow> u32" where
  "ssig0 x = rotr 7 x XOR rotr 18 x XOR drop_bit 3 x"

definition ssig1 :: "u32 \<Rightarrow> u32" where
  "ssig1 x = rotr 17 x XOR rotr 19 x XOR drop_bit 10 x"

definition sha256_k :: "u32 list" where
  "sha256_k = [
     1116352408, 1899447441, 3049323471, 3921009573,
     961987163, 1508970993, 2453635748, 2870763221,
     3624381080, 310598401, 607225278, 1426881987,
     1925078388, 2162078206, 2614888103, 3248222580,
     3835390401, 4022224774, 264347078, 604807628,
     770255983, 1249150122, 1555081692, 1996064986,
     2554220882, 2821834349, 2952996808, 3210313671,
     3336571891, 3584528711, 113926993, 338241895,
     666307205, 773529912, 1294757372, 1396182291,
     1695183700, 1986661051, 2177026350, 2456956037,
     2730485921, 2820302411, 3259730800, 3345764771,
     3516065817, 3600352804, 4094571909, 275423344,
     430227734, 506948616, 659060556, 883997877,
     958139571, 1322822218, 1537002063, 1747873779,
     1955562222, 2024104815, 2227730452, 2361852424,
     2428436474, 2756734187, 3204031479, 3329325298]"

definition sha256_h0 :: "u32 list" where
  "sha256_h0 = [
     1779033703, 3144134277, 1013904242, 2773480762,
     1359893119, 2600822924, 528734635, 1541459225]"

text \<open>
  The message schedule: \<open>w\<close> is the window of the last sixteen words, oldest first;
  \<open>schedule n w\<close> gives the next \<open>n\<close> words.
\<close>

fun schedule :: "nat \<Rightarrow> u32 list \<Rightarrow> u32 list" where
  "schedule 0 w = []"
| "schedule (Suc n) w =
     (let x = add32 (add32 (add32 (ssig1 (w ! 14)) (w ! 9)) (ssig0 (w ! 1))) (w ! 0)
      in x # schedule n (tl w @ [x]))"

text \<open>The rounds: one per pair of a round constant and a schedule word.\<close>

fun rounds :: "u32 list \<Rightarrow> u32 list \<Rightarrow> u32 list \<Rightarrow> u32 list" where
  "rounds [a, b, c, d, e, f, g, h] (k # ks) (w # ws) =
     (let t1 = add32 (add32 (add32 (add32 h (bsig1 e)) (ch e f g)) k) w;
          t2 = add32 (bsig0 a) (maj a b c)
      in rounds [add32 t1 t2, a, b, c, add32 d t1, e, f, g] ks ws)"
| "rounds s _ _ = s"

definition compress :: "u32 list \<Rightarrow> u32 list \<Rightarrow> u32 list" where
  "compress hs m = map2 add32 hs (rounds hs sha256_k (m @ schedule 48 m))"

fun be_words :: "byte list \<Rightarrow> u32 list" where
  "be_words (a # b # c # d # bs) = (((a * 256 + b) * 256 + c) * 256 + d) # be_words bs"
| "be_words _ = []"

definition be_bytes :: "nat \<Rightarrow> int \<Rightarrow> byte list" where
  "be_bytes n v = map (\<lambda>i. (v div 256 ^ i) mod 256) (rev [0..<n])"

definition sha256_pad :: "byte list \<Rightarrow> byte list" where
  "sha256_pad m =
     m @ [128] @ replicate ((119 - length m mod 64) mod 64) 0 @ be_bytes 8 (8 * int (length m))"

fun digest_blocks :: "nat \<Rightarrow> u32 list \<Rightarrow> byte list \<Rightarrow> u32 list" where
  "digest_blocks 0 hs bs = hs"
| "digest_blocks (Suc n) hs bs =
     digest_blocks n (compress hs (be_words (take 64 bs))) (drop 64 bs)"

definition sha256 :: "byte list \<Rightarrow> byte list" where
  "sha256 m =
     (let p = sha256_pad m
      in concat (map (be_bytes 4) (digest_blocks (length p div 64) sha256_h0 p)))"

definition hmac_sha256 :: "byte list \<Rightarrow> byte list \<Rightarrow> byte list" where
  "hmac_sha256 key msg =
     (let k0 = (if length key > 64 then sha256 key else key);
          k = k0 @ replicate (64 - length k0) 0
      in sha256 (map (\<lambda>b. b XOR 92) k @ sha256 (map (\<lambda>b. b XOR 54) k @ msg)))"

definition hex_digit :: "int \<Rightarrow> char" where
  "hex_digit n = ''0123456789abcdef'' ! nat n"

text \<open>\<^verbatim>\<open>hexdigest()\<close>: two lowercase hexadecimal digits per byte.\<close>

definition hexdigest :: "byte list \<Rightarrow> string" where
  "hexdigest bs = concat (map (\<lambda>b. [hex_digit (b div 16), hex_digit (b mod 16)]) bs)"

text \<open>\<^verbatim>\<open>s.encode('utf-8')\<close>: strings are UTF-8 byte strings already.\<close>

definition encode :: "string \<Rightarrow> byte list" where
  "encode s = map of_char s"

section \<open>Media records and the host\<close>

text \<open>
  One downloadable variant. The article extractor stores the element's \<^verbatim>\<open>url\<close> and
  \<^verbatim>\<open>codec\<close> values as they are in the page data, whatever their type.
\<close>

record format =
  fmt_url :: json
  fmt_vcodec :: json
  fmt_width :: "int option"
  fmt_height :: "int option"
  fmt_tbr :: "int option"
  fmt_filesize :: "int option"

text \<open>
  The info dict an extractor returns. The keys that only the catch-up extractor sets
  are optional (\<open>None\<close>: the key is not in the dict). A subtitle track is a pair of
  its \<^verbatim>\<open>url\<close> and \<^verbatim>\<open>ext\<close>.
\<close>

record media_record =
  rec_id :: string
  rec_title :: json
  rec_formats :: "format list"
  rec_description :: "string option"
  rec_thumbnail :: "string option"
  rec_duration :: "int option"
  rec_timestamp :: "int option"
  rec_series :: "json option"
  rec_series_id :: "json option"
  rec_episode_number :: "int option"
  rec_episode :: "string option"
  rec_uploader_id :: "json option"
  rec_subtitles :: "(string \<times> (json \<times> string) list) list option"

text \<open>
  Modelled from the spec: \<^verbatim>\<open>url_result\<close> and \<^verbatim>\<open>playlist_result\<close> of the host's
  \<^verbatim>\<open>InfoExtractor\<close> (not in this module). A PlaylistRecord is an ordered sequence of
  upstream-site URLs that the host resolves one by one; \<open>UrlResult u\<close> is the redirect
  to \<open>u\<close>.
\<close>

datatype url_result = UrlResult json

datatype extraction = PlaylistRecord "url_result list" | MediaRecord media_record

text \<open>
  Modelled from the spec: \<^verbatim>\<open>self.url_result(url)\<close> of the host (not in this
  module), the redirect to one upstream-site URL.
\<close>

definition url_result :: "json \<Rightarrow> url_result" where
  "url_result u = UrlResult u"

text \<open>
  Modelled from the spec: \<^verbatim>\<open>self.playlist_result(entries)\<close> of the host (not in
  this module), the PlaylistRecord of the entries in their order.
\<close>

definition playlist_result :: "url_result list \<Rightarrow> extraction" where
  "playlist_result entries = PlaylistRecord entries"

text \<open>What the extractors ask of the network, in the order they ask it.\<close>

datatype request = PageFetch string | ManifestFetch string

text \<open>
  The collaborators the module imports from the host (\<^verbatim>\<open>InfoExtractor\<close>, \<^verbatim>\<open>utils\<close>),
  taken as parameters. A method that the source calls without
  \<^verbatim>\<open>fatal=False\<close> or a default may raise, and returns \<open>error + _\<close>.
  \<^item> \<open>match_id pattern url\<close>: group \<^verbatim>\<open>id\<close> of the match of \<^verbatim>\<open>_VALID_URL\<close>, \<open>None\<close>
    when the URL does not match (the method asserts the match);
  \<^item> \<open>download_webpage url video_id\<close>; \<open>search_regex pattern text\<close>;
    \<open>html_search_regex pattern text\<close> with \<^verbatim>\<open>default=None\<close>;
    \<open>parse_json text video_id\<close>; \<open>js_to_json\<close>; the Open-Graph and meta-tag searches;
  \<^item> \<open>extract_m3u8_formats url video_id ext entry_protocol m3u8_id\<close> with
    \<^verbatim>\<open>fatal=False\<close>; \<open>update_url_query url query\<close>; \<open>parse_iso8601 value delimiter\<close>;
  \<^item> \<open>parse_int\<close>: the integer a value parses to, if any (inside \<^verbatim>\<open>int_or_none\<close>);
  \<^item> \<open>format_le\<close>: the quality comparator of \<^verbatim>\<open>_sort_formats\<close>;
  \<^item> \<open>repr_value\<close>: how \<^verbatim>\<open>str.format\<close> prints a float, a list or a dict.
\<close>

record host =
  match_id :: "string \<Rightarrow> string \<Rightarrow> string option"
  download_webpage :: "string \<Rightarrow> string \<Rightarrow> error + string"
  search_regex :: "string \<Rightarrow> string \<Rightarrow> error + string"
  html_search_regex :: "string \<Rightarrow> string \<Rightarrow> string option"
  parse_json :: "string \<Rightarrow> string \<Rightarrow> error + json"
  js_to_json :: "string \<Rightarrow> string"
  og_search_title :: "string \<Rightarrow> error + string"
  og_search_description :: "string \<Rightarrow> error + string option"
  og_search_thumbnail :: "string \<Rightarrow> error + string option"
  html_search_meta :: "string list \<Rightarrow> string \<Rightarrow> error + string option"
  extract_m3u8_formats :: "string \<Rightarrow> string \<Rightarrow> string \<Rightarrow> string \<Rightarrow> string \<Rightarrow> format list"
  update_url_query :: "string \<Rightarrow> (string \<times> string) list \<Rightarrow> string"
  parse_iso8601 :: "json \<Rightarrow> string \<Rightarrow> int option"
  parse_int :: "json \<Rightarrow> int option"
  format_le :: "format \<Rightarrow> format \<Rightarrow> bool"
  repr_value :: "json \<Rightarrow> string"

text \<open>
  Modelled from the spec: \<^verbatim>\<open>int_or_none\<close> of the host's \<^verbatim>\<open>utils\<close> (not in this
  module). Best-effort integer parsing: a missing or unparsable value gives null,
  never an error.
\<close>

definition int_or_none :: "host \<Rightarrow> json \<Rightarrow> int option" where
  "int_or_none h v = (case v of JNull \<Rightarrow> None | _ \<Rightarrow> parse_int h v)"

text \<open>
  Modelled from the spec: the quality ordering inside \<^verbatim>\<open>_sort_formats\<close> of the host
  (not in this module). The formats are ordered by a comparator that the host
  provides: each one is inserted before the first that it does not exceed.
\<close>

fun insort_by :: "('a \<Rightarrow> 'a \<Rightarrow> bool) \<Rightarrow> 'a \<Rightarrow> 'a list \<Rightarrow> 'a list" where
  "insort_by le x [] = [x]"
| "insort_by le x (y # ys) = (if le x y then x # y # ys else y # insort_by le x ys)"

text \<open>
  Modelled from the spec: the quality sort of the host (not in this module), by
  insertion with the host's comparator.
\<close>

definition quality_sort :: "('a \<Rightarrow> 'a \<Rightarrow> bool) \<Rightarrow> 'a list \<Rightarrow> 'a list" where
  "quality_sort le xs = foldr (insort_by le) xs []"

text \<open>
  Modelled from the spec: \<^verbatim>\<open>self._sort_formats(formats)\<close> of the host's
  \<^verbatim>\<open>InfoExtractor\<close> (not in this module). A list with no format at all is surfaced
  by the host as a failure; any other list is returned in the host's quality order.
\<close>

definition sort_formats :: "host \<Rightarrow> format list \<Rightarrow> error + format list" where
  "sort_formats h fs =
     (if fs = [] then Inl NoStreamAvailable else Inr (quality_sort (format_le h) fs))"

text \<open>
  Modelled from the spec: \<^verbatim>\<open>try_get(src, getter, compat_str)\<close> of the host's
  \<^verbatim>\<open>utils\<close> (not in this module), for a getter that subscripts \<open>src\<close> along a path
  of keys: the value there when every lookup succeeds and the value is a string,
  \<open>None\<close> otherwise.
\<close>

fun try_get_str :: "json \<Rightarrow> string list \<Rightarrow> string option" where
  "try_get_str (JStr s) [] = Some s"
| "try_get_str _ [] = None"
| "try_get_str x (k # ks) =
     (case py_item x k of Inl e \<Rightarrow> None | Inr v \<Rightarrow> try_get_str v ks)"

text \<open>
  A list comprehension whose element expression can raise: the first error ends it.
\<close>

fun comprehension :: "('a \<Rightarrow> error + 'b) \<Rightarrow> 'a list \<Rightarrow> error + 'b list" where
  "comprehension f [] = Inr []"
| "comprehension f (x # xs) =
     (case f x of
        Inl e \<Rightarrow> Inl e
      | Inr y \<Rightarrow> (case comprehension f xs of Inl e \<Rightarrow> Inl e | Inr ys \<Rightarrow> Inr (y # ys)))"

section \<open>ABCIE: the article extractor\<close>

definition abc_ie_name :: string where
  "abc_ie_name = ''abc.net.au''"

definition abc_valid_url :: string where
  "abc_valid_url =
     ''https?://(?:www'' @ CHR 0x5C # ''.)?abc'' @ CHR 0x5C # ''.net'' @ CHR 0x5C #
     ''.au/news/(?:[^/]+/){1,2}(?P<id>'' @ CHR 0x5C # ''d+)''"

definition expired_re :: string where
  \<open>expired_re = ''(?s)class="expired-(?:video|audio)".+?<span>(.+?)</span>''\<close>

datatype kind = Video | Audio | YouTube

text \<open>
  \<^verbatim>\<open>re.search\<close> of
  \<^verbatim>\<open>inline(?P<type>Video|Audio|YouTube)Data\.push\((?P<json_data>[^)]+)\);\<close>.
  \<open>strip_prefix p s\<close> is the rest of \<open>s\<close> after the literal \<open>p\<close>. The class
  \<^verbatim>\<open>[^)]+\<close> takes every character up to the next \<^verbatim>\<open>)\<close>, at least one, and
  cannot give any back, since \<^verbatim>\<open>\)\<close> has to follow. The search returns the leftmost
  match.
\<close>

fun strip_prefix :: "string \<Rightarrow> string \<Rightarrow> string option" where
  "strip_prefix [] s = Some s"
| "strip_prefix (p # ps) [] = None"
| "strip_prefix (p # ps) (c # cs) = (if p = c then strip_prefix ps cs else None)"

definition match_kind :: "string \<Rightarrow> (kind \<times> string) option" where
  "match_kind s =
     (case strip_prefix ''Video'' s of
        Some r \<Rightarrow> Some (Video, r)
      | None \<Rightarrow>
          (case strip_prefix ''Audio'' s of
             Some r \<Rightarrow> Some (Audio, r)
           | None \<Rightarrow>
               (case strip_prefix ''YouTube'' s of
                  Some r \<Rightarrow> Some (YouTube, r)
                | None \<Rightarrow> None)))"

definition match_inline :: "string \<Rightarrow> (kind \<times> string) option" where
  "match_inline s =
     (case strip_prefix ''inline'' s of
        None \<Rightarrow> None
      | Some r1 \<Rightarrow>
          (case match_kind r1 of
             None \<Rightarrow> None
           | Some (k, r2) \<Rightarrow>
               (case strip_prefix ''Data.push('' r2 of
                  None \<Rightarrow> None
                | Some r3 \<Rightarrow>
                    (let json_data = takeWhile (\<lambda>c. c \<noteq> CHR 0x29) r3
                     in if json_data \<noteq> [] \<and>
                           strip_prefix [CHR 0x29, CHR '';''] (dropWhile (\<lambda>c. c \<noteq> CHR 0x29) r3) \<noteq> None
                        then Some (k, json_data) else None))))"

fun search_inline :: "string \<Rightarrow> (kind \<times> string) option" where
  "search_inline [] = None"
| "search_inline (c # cs) =
     (case match_inline (c # cs) of Some m \<Rightarrow> Some m | None \<Rightarrow> search_inline cs)"

text \<open>One element of the \<^verbatim>\<open>formats\<close> comprehension (lines 85 to 92).\<close>

definition article_format :: "host \<Rightarrow> kind \<Rightarrow> json \<Rightarrow> error + format" where
  "article_format h k url_info =
     (case url_info of
        JObj kvs \<Rightarrow>
          (case map_of kvs ''url'' of
             None \<Rightarrow> Inl (KeyError ''url'')
           | Some u \<Rightarrow>
               Inr \<lparr>fmt_url = u,
                    fmt_vcodec = (if k = Video then dict_get kvs ''codec'' else JStr ''none''),
                    fmt_width = int_or_none h (dict_get kvs ''width''),
                    fmt_height = int_or_none h (dict_get kvs ''height''),
                    fmt_tbr = int_or_none h (dict_get kvs ''bitrate''),
                    fmt_filesize = int_or_none h (dict_get kvs ''filesize'')\<rparr>)
      | _ \<Rightarrow> Inl TypeError)"

text \<open>Lines 78 to 79: a value that is not a list is wrapped in one.\<close>

definition as_list :: "json \<Rightarrow> json list" where
  "as_list v = (case v of JList xs \<Rightarrow> xs | _ \<Rightarrow> [v])"

text \<open>Lines 81 to 102: the result for the parsed elements.\<close>

definition abc_result :: "host \<Rightarrow> kind \<Rightarrow> string \<Rightarrow> string \<Rightarrow> json list \<Rightarrow> error + extraction" where
  "abc_result h k video_id webpage urls_info =
     (if k = YouTube then
        (case comprehension (\<lambda>url_info. py_item url_info ''url'') urls_info of
           Inl e \<Rightarrow> Inl e
         | Inr us \<Rightarrow> Inr (playlist_result (map url_result us)))
      else
        (case comprehension (article_format h k) urls_info of
           Inl e \<Rightarrow> Inl e
         | Inr formats \<Rightarrow>
        (case sort_formats h formats of
           Inl e \<Rightarrow> Inl e
         | Inr ordered \<Rightarrow>
        (case og_search_title h webpage of
           Inl e \<Rightarrow> Inl e
         | Inr title \<Rightarrow>
        (case og_search_description h webpage of
           Inl e \<Rightarrow> Inl e
         | Inr description \<Rightarrow>
        (case og_search_thumbnail h webpage of
           Inl e \<Rightarrow> Inl e
         | Inr thumbnail \<Rightarrow>
             Inr (MediaRecord
               \<lparr>rec_id = video_id, rec_title = JStr title, rec_formats = ordered,
                rec_description = description, rec_thumbnail = thumbnail,
                rec_duration = None, rec_timestamp = None, rec_series = None,
                rec_series_id = None, rec_episode_number = None, rec_episode = None,
                rec_uploader_id = None, rec_subtitles = None\<rparr>)))))))"

text \<open>\<^verbatim>\<open>ABCIE._real_extract\<close>.\<close>

definition abc_real_extract :: "host \<Rightarrow> string \<Rightarrow> error + extraction" where
  "abc_real_extract h url =
     (case match_id h abc_valid_url url of
        None \<Rightarrow> Inl AssertionError
      | Some video_id \<Rightarrow>
     (case download_webpage h url video_id of
        Inl e \<Rightarrow> Inl e
      | Inr webpage \<Rightarrow>
     (case search_inline webpage of
        None \<Rightarrow>
          (case html_search_regex h expired_re webpage of
             None \<Rightarrow> Inl (ExtractorError ''Unable to extract video urls'' False)
           | Some expired \<Rightarrow>
               if expired \<noteq> []
               then Inl (ExtractorError (abc_ie_name @ '' said: '' @ expired) True)
               else Inl (ExtractorError ''Unable to extract video urls'' False))
      | Some (k, json_data) \<Rightarrow>
          (case parse_json h (js_to_json h json_data) video_id of
             Inl e \<Rightarrow> Inl e
           | Inr parsed \<Rightarrow> abc_result h k video_id webpage (as_list parsed)))))"

section \<open>ABCIViewIE: the catch-up extractor\<close>

definition iview_valid_url :: string where
  "iview_valid_url =
     ''https?://iview'' @ CHR 0x5C # ''.abc'' @ CHR 0x5C # ''.net'' @ CHR 0x5C #
     ''.au/programs/[^/]+/(?P<id>[^/?#]+)''"

definition video_params_re :: string where
  "video_params_re = ''videoParams'' @ CHR 0x5C # ''s*='' @ CHR 0x5C # ''s*({.+?});''"

text \<open>Line 133: \<^verbatim>\<open>video_params.get('title') or video_params['seriesTitle']\<close>.\<close>

definition iview_title :: "(string \<times> json) list \<Rightarrow> error + json" where
  "iview_title vp =
     (if truthy (dict_get vp ''title'') then Inr (dict_get vp ''title'')
      else (case map_of vp ''seriesTitle'' of
              None \<Rightarrow> Inl (KeyError ''seriesTitle'')
            | Some v \<Rightarrow> Inr v))"

text \<open>
  Line 134: \<^verbatim>\<open>next(s for s in video_params['playlist'] if s.get('type') == 'program')\<close>.
  \<^verbatim>\<open>next\<close> has no default: the exhausted generator raises \<^verbatim>\<open>StopIteration\<close>.
\<close>

fun find_program :: "json list \<Rightarrow> error + (string \<times> json) list" where
  "find_program [] = Inl StopIteration"
| "find_program (s # ss) =
     (case s of
        JObj kvs \<Rightarrow>
          if dict_get kvs ''type'' = JStr ''program'' then Inr kvs else find_program ss
      | _ \<Rightarrow> Inl AttributeError)"

definition select_stream :: "(string \<times> json) list \<Rightarrow> error + (string \<times> json) list" where
  "select_stream vp =
     (case map_of vp ''playlist'' of
        None \<Rightarrow> Inl (KeyError ''playlist'')
      | Some playlist \<Rightarrow>
          (case py_iter playlist of Inl e \<Rightarrow> Inl e | Inr ss \<Rightarrow> find_program ss))"

text \<open>How \<^verbatim>\<open>'{1}'.format(house_number)\<close> prints the value.\<close>

definition py_format :: "host \<Rightarrow> json \<Rightarrow> string" where
  "py_format h v =
     (case v of
        JNull \<Rightarrow> ''None''
      | JBool b \<Rightarrow> (if b then ''True'' else ''False'')
      | JInt n \<Rightarrow> dec_int n
      | JStr s \<Rightarrow> s
      | _ \<Rightarrow> repr_value h v)"

text \<open>Lines 136 to 143: the signing path, its signature and the token request.\<close>

definition signing_path :: "host \<Rightarrow> int \<Rightarrow> json \<Rightarrow> string" where
  "signing_path h now house_number =
     ''/auth/hls/sign?ts='' @ dec_int now @ ''&hn='' @ py_format h house_number @
     ''&d=android-mobile''"

definition signature :: "string \<Rightarrow> string" where
  "signature path =
     hexdigest (hmac_sha256 (encode ''android.content.res.Resources'') (encode path))"

definition token_url :: "string \<Rightarrow> string" where
  "token_url path = ''http://iview.abc.net.au'' @ path @ ''&sig='' @ signature path"

definition tokenize_url :: "host \<Rightarrow> string \<Rightarrow> string \<Rightarrow> string" where
  "tokenize_url h u token = update_url_query h u [(''hdnea'', token)]"

definition iview_tiers :: "string list" where
  "iview_tiers = [''sd'', ''sd-low'']"

text \<open>
  Lines 150 to 159, the loop over the tiers. \<open>formats\<close> is the local variable:
  \<open>None\<close> while it is unbound. The result is the manifests requested, in order, and
  the variable after the loop.
\<close>

fun tier_loop ::
  "host \<Rightarrow> json \<Rightarrow> string \<Rightarrow> string \<Rightarrow> string list \<Rightarrow> format list option
     \<Rightarrow> request list \<times> format list option" where
  "tier_loop h stream token video_id [] formats = ([], formats)"
| "tier_loop h stream token video_id (sd # sds) formats =
     (case try_get_str stream [''streams'', ''hls'', sd] of
        None \<Rightarrow> tier_loop h stream token video_id sds formats
      | Some sd_url \<Rightarrow>
          if sd_url = [] then tier_loop h stream token video_id sds formats
          else
            (let u = tokenize_url h sd_url token;
                 fs = extract_m3u8_formats h u video_id ''mp4'' ''m3u8_native'' ''hls''
             in if fs \<noteq> [] then ([ManifestFetch u], Some fs)
                else (case tier_loop h stream token video_id sds (Some fs) of
                        (log, r) \<Rightarrow> (ManifestFetch u # log, r))))"

text \<open>Lines 162 to 168.\<close>

definition iview_subtitles ::
  "(string \<times> json) list \<Rightarrow> error + (string \<times> (json \<times> string) list) list" where
  "iview_subtitles stream =
     (case py_get (dict_get_default stream ''captions'' (JObj [])) ''src-vtt'' of
        Inl e \<Rightarrow> Inl e
      | Inr src_vtt \<Rightarrow> Inr (if truthy src_vtt then [(''en'', [(src_vtt, ''vtt'')])] else []))"

definition meta_value :: "string option \<Rightarrow> json" where
  "meta_value m = (case m of None \<Rightarrow> JNull | Some s \<Rightarrow> JStr s)"

text \<open>Lines 170 to 184: the returned dict, its values computed in the order written.\<close>

definition iview_info ::
  "host \<Rightarrow> string \<Rightarrow> string \<Rightarrow> (string \<times> json) list \<Rightarrow> json \<Rightarrow> format list
     \<Rightarrow> (string \<times> (json \<times> string) list) list \<Rightarrow> error + media_record" where
  "iview_info h video_id webpage vp title formats subtitles =
     (case html_search_meta h [''og:description'', ''twitter:description''] webpage of
        Inl e \<Rightarrow> Inl e
      | Inr description \<Rightarrow>
     (case html_search_meta h [''og:image'', ''twitter:image:src''] webpage of
        Inl e \<Rightarrow> Inl e
      | Inr thumbnail \<Rightarrow>
     (case html_search_meta h [''episodeNumber''] webpage of
        Inl e \<Rightarrow> Inl e
      | Inr episode_number \<Rightarrow>
     (case html_search_meta h [''episode_title''] webpage of
        Inl e \<Rightarrow> Inl e
      | Inr episode \<Rightarrow>
          Inr \<lparr>rec_id = video_id, rec_title = title, rec_formats = formats,
               rec_description = description, rec_thumbnail = thumbnail,
               rec_duration = int_or_none h (dict_get vp ''eventDuration''),
               rec_timestamp = parse_iso8601 h (dict_get vp ''pubDate'') '' '',
               rec_series = Some (dict_get vp ''seriesTitle''),
               rec_series_id =
                 Some (if truthy (dict_get vp ''seriesHouseNumber'')
                       then dict_get vp ''seriesHouseNumber'' else JStr (take 7 video_id)),
               rec_episode_number = int_or_none h (meta_value episode_number),
               rec_episode = episode,
               rec_uploader_id = Some (dict_get vp ''channel''),
               rec_subtitles = Some subtitles\<rparr>))))"

text \<open>
  Lines 160 to 184, after the loop: \<^verbatim>\<open>self._sort_formats(formats)\<close> reads the local
  variable, which is unbound when no tier had a URL.
\<close>

definition iview_finish ::
  "host \<Rightarrow> string \<Rightarrow> string \<Rightarrow> (string \<times> json) list \<Rightarrow> json \<Rightarrow> (string \<times> json) list
     \<Rightarrow> format list option \<Rightarrow> error + media_record" where
  "iview_finish h video_id webpage vp title stream formats =
     (case formats of
        None \<Rightarrow> Inl (UnboundLocalError ''formats'')
      | Some fs \<Rightarrow>
     (case sort_formats h fs of
        Inl e \<Rightarrow> Inl e
      | Inr ordered \<Rightarrow>
     (case iview_subtitles stream of
        Inl e \<Rightarrow> Inl e
      | Inr subtitles \<Rightarrow> iview_info h video_id webpage vp title ordered subtitles)))"

text \<open>
  Lines 131 to 138: the configuration, the title, the program entry and the signing
  path. \<open>now\<close> is \<^verbatim>\<open>int(time.time())\<close>.
\<close>

definition iview_signing ::
  "host \<Rightarrow> int \<Rightarrow> string \<Rightarrow> string
     \<Rightarrow> error + ((string \<times> json) list \<times> json \<times> (string \<times> json) list \<times> string)" where
  "iview_signing h now video_id webpage =
     (case search_regex h video_params_re webpage of
        Inl e \<Rightarrow> Inl e
      | Inr raw \<Rightarrow>
     (case parse_json h raw video_id of
        Inl e \<Rightarrow> Inl e
      | Inr video_params \<Rightarrow>
     (case video_params of
        JObj vp \<Rightarrow>
          (case iview_title vp of
             Inl e \<Rightarrow> Inl e
           | Inr title \<Rightarrow>
          (case select_stream vp of
             Inl e \<Rightarrow> Inl e
           | Inr stream \<Rightarrow>
               Inr (vp, title, stream,
                    signing_path h now (dict_get vp ''episodeHouseNumber''))))
      | _ \<Rightarrow> Inl AttributeError)))"

text \<open>
  \<^verbatim>\<open>ABCIViewIE._real_extract\<close>: the requests made, in order, and the result.
\<close>

definition iview_real_extract :: "host \<Rightarrow> int \<Rightarrow> string \<Rightarrow> request list \<times> (error + media_record)" where
  "iview_real_extract h now url =
     (case match_id h iview_valid_url url of
        None \<Rightarrow> ([], Inl AssertionError)
      | Some video_id \<Rightarrow>
     (case download_webpage h url video_id of
        Inl e \<Rightarrow> ([PageFetch url], Inl e)
      | Inr webpage \<Rightarrow>
     (case iview_signing h now video_id webpage of
        Inl e \<Rightarrow> ([PageFetch url], Inl e)
      | Inr (vp, title, stream, path) \<Rightarrow>
     (case download_webpage h (token_url path) video_id of
        Inl e \<Rightarrow> ([PageFetch url, PageFetch (token_url path)], Inl e)
      | Inr token \<Rightarrow>
     (case tier_loop h (JObj stream) token video_id iview_tiers None of
        (manifests, formats) \<Rightarrow>
          (PageFetch url # PageFetch (token_url path) # manifests,
           iview_finish h video_id webpage vp title stream formats))))))"

section \<open>Notions used in the statements\<close>

text \<open>
  A playlist entry is a program entry when it is an object whose \<^verbatim>\<open>type\<close> field
  equals \<^verbatim>\<open>"program"\<close>; \<open>fields\<close> gives the items of an object.
\<close>

definition is_object :: "json \<Rightarrow> bool" where
  "is_object v = (case v of JObj kvs \<Rightarrow> True | _ \<Rightarrow> False)"

definition fields :: "json \<Rightarrow> (string \<times> json) list" where
  "fields v = (case v of JObj kvs \<Rightarrow> kvs | _ \<Rightarrow> [])"

definition is_program :: "json \<Rightarrow> bool" where
  "is_program v = (is_object v \<and> dict_get (fields v) ''type'' = JStr ''program'')"

text \<open>
  An inline data block of kind \<open>k\<close> with the text \<open>json_data\<close>, as it stands in a
  page: what the pattern of line 67 describes.
\<close>

definition kind_name :: "kind \<Rightarrow> string" where
  "kind_name k = (case k of Video \<Rightarrow> ''Video'' | Audio \<Rightarrow> ''Audio'' | YouTube \<Rightarrow> ''YouTube'')"

definition inline_block :: "kind \<Rightarrow> string \<Rightarrow> string" where
  "inline_block k json_data =
     ''inline'' @ kind_name k @ ''Data.push('' @ json_data @ [CHR 0x29, CHR '';'']"

text \<open>
  A page-data element has a URL when it is an object with a \<^verbatim>\<open>url\<close> key;
  \<open>element_field e k\<close> is the element's field \<open>k\<close>, null when it is missing.
\<close>

definition has_url :: "json \<Rightarrow> bool" where
  "has_url e = (is_object e \<and> map_of (fields e) ''url'' \<noteq> None)"

definition element_field :: "json \<Rightarrow> string \<Rightarrow> json" where
  "element_field e k = dict_get (fields e) k"

text \<open>
  The MediaFormat of one list element in the words of the specification: the codec
  is the element's when the kind is Video and the literal \<^verbatim>\<open>none\<close> otherwise; width,
  height, bitrate and filesize are integer-parsed from the fields of these names.
\<close>

definition element_format :: "host \<Rightarrow> kind \<Rightarrow> json \<Rightarrow> format" where
  "element_format h k e =
     \<lparr>fmt_url = element_field e ''url'',
      fmt_vcodec = (case k of Video \<Rightarrow> element_field e ''codec'' | _ \<Rightarrow> JStr ''none''),
      fmt_width = int_or_none h (element_field e ''width''),
      fmt_height = int_or_none h (element_field e ''height''),
      fmt_tbr = int_or_none h (element_field e ''bitrate''),
      fmt_filesize = int_or_none h (element_field e ''filesize'')\<rparr>"

text \<open>
  A quality tier of a playlist entry is present when \<^verbatim>\<open>streams.hls\<close> has a
  non-empty string under the tier's name; \<open>tier_manifest\<close> is what the host's manifest
  parser makes of a tier's URL once the token is appended.
\<close>

definition tier_url :: "json \<Rightarrow> string \<Rightarrow> string option" where
  "tier_url stream tier =
     (case try_get_str stream [''streams'', ''hls'', tier] of
        None \<Rightarrow> None
      | Some u \<Rightarrow> if u = [] then None else Some u)"

definition tier_request :: "host \<Rightarrow> string \<Rightarrow> string \<Rightarrow> request" where
  "tier_request h token u = ManifestFetch (tokenize_url h u token)"

definition tier_manifest :: "host \<Rightarrow> string \<Rightarrow> string \<Rightarrow> string \<Rightarrow> format list" where
  "tier_manifest h token video_id u =
     extract_m3u8_formats h (tokenize_url h u token) video_id ''mp4'' ''m3u8_native'' ''hls''"

section \<open>Example pages\<close>

text \<open>
  A small host for the examples: pages and parsed documents come from tables, every
  other address answers with a token, the searches find nothing and the manifest
  parser knows the manifests of a table.
\<close>

definition last_segment :: "string \<Rightarrow> string" where
  "last_segment u = rev (takeWhile (\<lambda>c. c \<noteq> CHR ''/'') (rev u))"

definition example_host ::
  "(string \<times> string) list \<Rightarrow> (string \<times> json) list \<Rightarrow> (string \<times> format list) list \<Rightarrow> host" where
  "example_host pages docs manifests =
     \<lparr>match_id = (\<lambda>pattern u. Some (last_segment u)),
      download_webpage =
        (\<lambda>u video_id. case map_of pages u of Some body \<Rightarrow> Inr body | None \<Rightarrow> Inr ''token''),
      search_regex = (\<lambda>pattern text. Inr text),
      html_search_regex = (\<lambda>pattern text. None),
      parse_json =
        (\<lambda>text video_id. case map_of docs text of
           Some v \<Rightarrow> Inr v
         | None \<Rightarrow> Inl (ExtractorError ''Failed to parse JSON'' False)),
      js_to_json = (\<lambda>text. text),
      og_search_title = (\<lambda>text. Inr ''A title''),
      og_search_description = (\<lambda>text. Inr None),
      og_search_thumbnail = (\<lambda>text. Inr None),
      html_search_meta = (\<lambda>names text. Inr None),
      extract_m3u8_formats =
        (\<lambda>u video_id ext entry_protocol m3u8_id.
           case map_of manifests u of Some fs \<Rightarrow> fs | None \<Rightarrow> []),
      update_url_query = (\<lambda>u query. u @ concat (map (\<lambda>kv. ''?'' @ fst kv @ ''='' @ snd kv) query)),
      parse_iso8601 = (\<lambda>v delimiter. None),
      parse_int = (\<lambda>v. case v of JInt n \<Rightarrow> Some n | _ \<Rightarrow> None),
      format_le = (\<lambda>a b. True),
      repr_value = (\<lambda>v. ''?'')\<rparr>"

definition hls_format :: "string \<Rightarrow> format" where
  "hls_format u =
     \<lparr>fmt_url = JStr u, fmt_vcodec = JStr ''avc1.77.30'', fmt_width = Some 1024,
      fmt_height = Some 576, fmt_tbr = Some 1500, fmt_filesize = None\<rparr>"

definition iview_url :: string where
  "iview_url = ''http://iview.abc.net.au/programs/call-the-midwife/ZW0898A003S00''"

definition iview_page :: string where
  "iview_page = ''<script>videoParams = {};</script>''"

definition program_entry :: "(string \<times> json) list \<Rightarrow> json" where
  "program_entry streams =
     JObj [(''type'', JStr ''program''), (''streams'', JObj [(''hls'', JObj streams)])]"

definition iview_params :: "(string \<times> json) list \<Rightarrow> json list \<Rightarrow> json" where
  "iview_params extra playlist =
     JObj (extra @ [(''title'', JStr ''Series 5 Ep 3''), (''playlist'', JList playlist)])"

definition iview_host :: "json \<Rightarrow> host" where
  "iview_host params =
     example_host [(iview_url, iview_page)] [(iview_page, params)]
       [(''http://a/sd.m3u8?hdnea=token'', []),
        (''http://a/low.m3u8?hdnea=token'', [hls_format ''http://a/low/1.m3u8''])]"

definition both_tiers :: "(string \<times> json) list" where
  "both_tiers = [(''sd'', JStr ''http://a/sd.m3u8''), (''sd-low'', JStr ''http://a/low.m3u8'')]"

definition article_url :: string where
  "article_url = ''http://www.abc.net.au/news/2015-10-19/6866214''"

definition article_page :: "string \<Rightarrow> string \<Rightarrow> string" where
  "article_page name json_data =
     ''<script>inline'' @ name @ ''Data.push('' @ json_data @ [CHR 0x29] @ '';</script>''"

definition youtube_data :: string where
  \<open>youtube_data =
     ''[{"url": "http://www.youtube.com/watch?v=NvqvPeNZsHU"}, {"url": "http://youtu.be/x"}]''\<close>

definition youtube_parsed :: json where
  "youtube_parsed =
     JList [JObj [(''url'', JStr ''http://www.youtube.com/watch?v=NvqvPeNZsHU'')],
            JObj [(''url'', JStr ''http://youtu.be/x'')]]"

definition video_data :: string where
  \<open>video_data = ''{"url": "http://a/v.mp4", "codec": "h264", "width": 640, "height": "tall"}''\<close>

definition video_parsed :: json where
  "video_parsed =
     JObj [(''url'', JStr ''http://a/v.mp4''), (''codec'', JStr ''h264''), (''width'', JInt 640),
           (''height'', JStr ''tall'')]"

definition empty_url_data :: string where
  \<open>empty_url_data = ''{"url": ""}''\<close>

definition empty_url_parsed :: json where
  "empty_url_parsed = JObj [(''url'', JStr [])]"

definition article_host :: "string \<Rightarrow> string \<Rightarrow> json \<Rightarrow> host" where
  "article_host page json_data data = example_host [(article_url, page)] [(json_data, data)] []"

section \<open>Properties\<close>

subsection \<open>The example host, field by field\<close>

lemma example_host_simps:
  "match_id (example_host pages docs manifests) pattern u = Some (last_segment u)"
  "download_webpage (example_host pages docs manifests) u video_id =
     (case map_of pages u of Some body \<Rightarrow> Inr body | None \<Rightarrow> Inr ''token'')"
  "search_regex (example_host pages docs manifests) pattern text = Inr text"
  "html_search_regex (example_host pages docs manifests) pattern text = None"
  "parse_json (example_host pages docs manifests) text video_id =
     (case map_of docs text of
        Some v \<Rightarrow> Inr v
      | None \<Rightarrow> Inl (ExtractorError ''Failed to parse JSON'' False))"
  "js_to_json (example_host pages docs manifests) text = text"
  "og_search_title (example_host pages docs manifests) text = Inr ''A title''"
  "og_search_description (example_host pages docs manifests) text = Inr None"
  "og_search_thumbnail (example_host pages docs manifests) text = Inr None"
  "html_search_meta (example_host pages docs manifests) names text = Inr None"
  "extract_m3u8_formats (example_host pages docs manifests) u video_id ext entry_protocol m3u8_id =
     (case map_of manifests u of Some fs \<Rightarrow> fs | None \<Rightarrow> [])"
  "update_url_query (example_host pages docs manifests) u query =
     u @ concat (map (\<lambda>kv. ''?'' @ fst kv @ ''='' @ snd kv) query)"
  "parse_iso8601 (example_host pages docs manifests) v delimiter = None"
  "parse_int (example_host pages docs manifests) v = (case v of JInt n \<Rightarrow> Some n | _ \<Rightarrow> None)"
  "format_le (example_host pages docs manifests) a b = True"
  "repr_value (example_host pages docs manifests) v = ''?''"
  by (simp_all add: example_host_def)

lemmas example_defs =
  iview_host_def iview_url_def iview_page_def iview_params_def program_entry_def both_tiers_def
  last_segment_def hls_format_def article_host_def article_url_def article_page_def
  youtube_data_def youtube_parsed_def video_data_def video_parsed_def empty_url_data_def
  empty_url_parsed_def

lemmas iview_defs =
  iview_real_extract_def iview_signing_def iview_title_def select_stream_def dict_get_def
  dict_get_default_def iview_finish_def iview_info_def iview_subtitles_def iview_tiers_def
  tokenize_url_def sort_formats_def quality_sort_def int_or_none_def meta_value_def
  signing_path_def py_format_def token_url_def dec_int_def


lemmas abc_defs =
  abc_real_extract_def abc_result_def as_list_def match_inline_def match_kind_def
  article_format_def dict_get_def sort_formats_def quality_sort_def int_or_none_def
  playlist_result_def url_result_def

lemmas notion_defs =
  is_object_def fields_def is_program_def has_url_def element_field_def element_format_def
  dict_get_def tier_url_def tier_request_def tier_manifest_def

subsection \<open>Selecting the program entry\<close>

lemma find_program_first:
  "\<forall>s \<in> set (takeWhile (\<lambda>s. \<not> is_program s) ss). is_object s \<Longrightarrow>
   find_program ss =
     (case find is_program ss of None \<Rightarrow> Inl StopIteration | Some s \<Rightarrow> Inr (fields s))"
proof (induction ss)
  case Nil
  show ?case by simp
next
  case (Cons s ss)
  show ?case
  proof (cases "is_program s")
    case True
    then show ?thesis
      by (cases s) (simp_all add: is_program_def is_object_def fields_def)
  next
    case False
    with Cons.prems have obj: "is_object s"
      and rest: "\<forall>s \<in> set (takeWhile (\<lambda>s. \<not> is_program s) ss). is_object s"
      by simp_all
    from obj obtain kvs where s: "s = JObj kvs"
      by (cases s) (simp_all add: is_object_def)
    from False s have "dict_get kvs ''type'' \<noteq> JStr ''program''"
      by (simp add: is_program_def is_object_def fields_def)
    with s False Cons.IH [OF rest] show ?thesis
      by simp
  qed
qed

text \<open>
  C4, as the code has it. When the playlist is a list whose entries up to the first
  program entry are objects, line 134 selects the first program entry; when there is
  none, \<^verbatim>\<open>next\<close> raises \<^verbatim>\<open>StopIteration\<close>, which leaves \<^verbatim>\<open>_real_extract\<close> as it
  is: the page has been fetched, nothing else is requested, and no
  \<^verbatim>\<open>ExtractorError\<close> is made of it.
\<close>

theorem program_entry_selection:
  assumes "map_of vp ''playlist'' = Some (JList ss)"
    and "\<forall>s \<in> set (takeWhile (\<lambda>s. \<not> is_program s) ss). is_object s"
  shows "select_stream vp =
           (case find is_program ss of None \<Rightarrow> Inl StopIteration | Some s \<Rightarrow> Inr (fields s))
       \<and> (match_id h iview_valid_url url = Some video_id \<and>
          download_webpage h url video_id = Inr webpage \<and>
          search_regex h video_params_re webpage = Inr raw \<and>
          parse_json h raw video_id = Inr (JObj vp) \<and>
          iview_title vp = Inr title \<and>
          find is_program ss = None
          \<longrightarrow> iview_real_extract h now url = ([PageFetch url], Inl StopIteration))"
proof -
  have sel: "select_stream vp =
      (case find is_program ss of None \<Rightarrow> Inl StopIteration | Some s \<Rightarrow> Inr (fields s))"
    using assms by (simp add: select_stream_def find_program_first)
  then show ?thesis
    by (simp add: iview_real_extract_def iview_signing_def)
qed

theorem program_entry_selection_witness:
  "select_stream [(''playlist'', JList [JObj [(''type'', JStr ''promo'')], program_entry both_tiers])]
     = Inr (fields (program_entry both_tiers))
   \<and> iview_real_extract (iview_host (iview_params [] [JObj [(''type'', JStr ''promo'')]]))
       1514499187 iview_url = ([PageFetch iview_url], Inl StopIteration)"
proof -
  let ?promo = "JObj [(''type'', JStr ''promo'')]"
  have a: "select_stream [(''playlist'', JList [?promo, program_entry both_tiers])]
      = Inr (fields (program_entry both_tiers))"
    using program_entry_selection
      [of "[(''playlist'', JList [?promo, program_entry both_tiers])]"
          "[?promo, program_entry both_tiers]"]
    by (simp add: is_program_def is_object_def fields_def dict_get_def program_entry_def)
  have b: "iview_real_extract (iview_host (iview_params [] [?promo])) 1514499187 iview_url
      = ([PageFetch iview_url], Inl StopIteration)"
    using program_entry_selection
      [of "[(''title'', JStr ''Series 5 Ep 3''), (''playlist'', JList [?promo])]" "[?promo]"
          "iview_host (iview_params [] [?promo])" iview_url "''ZW0898A003S00''" iview_page
          iview_page "JStr ''Series 5 Ep 3''" 1514499187]
    by (simp add: is_program_def is_object_def fields_def dict_get_def example_host_simps
        example_defs iview_title_def)
  from a b show ?thesis by simp
qed

theorem no_program_entry_counterexample:
  "iview_real_extract (iview_host (iview_params [] [JObj [(''type'', JStr ''livestream'')]]))
     1514499187 iview_url = ([PageFetch iview_url], Inl StopIteration)"
  by (simp add: example_host_simps example_defs iview_defs)

subsection \<open>No tier has a URL\<close>

text \<open>
  C3 at a page whose program entry has neither \<^verbatim>\<open>streams.hls.sd\<close> nor
  \<^verbatim>\<open>streams.hls.sd-low\<close>: the loop never binds \<^verbatim>\<open>formats\<close>, and line 160 fails
  with \<^verbatim>\<open>UnboundLocalError\<close> before the host's sorting is called.
\<close>

theorem no_tier_url_unbound_formats:
  "snd (iview_real_extract (iview_host (iview_params [] [program_entry []])) 1514499187 iview_url)
     = Inl (UnboundLocalError ''formats'')"
  by (simp add: example_host_simps example_defs iview_defs)

subsection \<open>The search for the inline data block\<close>

lemma strip_prefix_Some: "strip_prefix p s = Some r \<longleftrightarrow> s = p @ r"
  by (induction p s rule: strip_prefix.induct) auto

lemma strip_prefix_None: "strip_prefix p s = None \<longleftrightarrow> (\<forall>r. s \<noteq> p @ r)"
  using strip_prefix_Some [of p s] by (cases "strip_prefix p s") auto

text \<open>
  The class \<^verbatim>\<open>[^)]+\<close> followed by \<^verbatim>\<open>\)\<close>: the run up to the first closing
  parenthesis.
\<close>

lemma run_split:
  "CHR 0x29 \<notin> set body \<Longrightarrow>
   takeWhile (\<lambda>c. c \<noteq> CHR 0x29) (body @ CHR 0x29 # rest) = body \<and>
   dropWhile (\<lambda>c. c \<noteq> CHR 0x29) (body @ CHR 0x29 # rest) = CHR 0x29 # rest"
  by (induction body) auto

lemma match_kind_Some: "match_kind s = Some (k, r) \<longleftrightarrow> s = kind_name k @ r"
  by (cases k)
    (auto simp: match_kind_def kind_name_def strip_prefix_Some strip_prefix_None
      split: option.splits)

lemma match_inline_cases:
  "match_inline s = Some (k, json_data) \<longleftrightarrow>
     (\<exists>r1 r2 r3. strip_prefix ''inline'' s = Some r1 \<and> match_kind r1 = Some (k, r2) \<and>
        strip_prefix ''Data.push('' r2 = Some r3 \<and>
        json_data = takeWhile (\<lambda>c. c \<noteq> CHR 0x29) r3 \<and> json_data \<noteq> [] \<and>
        strip_prefix [CHR 0x29, CHR '';''] (dropWhile (\<lambda>c. c \<noteq> CHR 0x29) r3) \<noteq> None)"
  unfolding match_inline_def Let_def
  by (auto split: option.splits prod.splits if_splits)

text \<open>
  The pattern matches at the head of \<open>s\<close> exactly when \<open>s\<close> starts with an inline
  data block whose text is not empty and has no closing parenthesis in it.
\<close>

lemma match_inline_Some:
  "match_inline s = Some (k, json_data) \<longleftrightarrow>
     json_data \<noteq> [] \<and> CHR 0x29 \<notin> set json_data \<and> (\<exists>post. s = inline_block k json_data @ post)"
proof
  assume "match_inline s = Some (k, json_data)"
  then obtain r1 r2 r3 where r1: "strip_prefix ''inline'' s = Some r1"
    and r2: "match_kind r1 = Some (k, r2)"
    and r3: "strip_prefix ''Data.push('' r2 = Some r3"
    and body: "json_data = takeWhile (\<lambda>c. c \<noteq> CHR 0x29) r3" and ne: "json_data \<noteq> []"
    and rest: "strip_prefix [CHR 0x29, CHR '';''] (dropWhile (\<lambda>c. c \<noteq> CHR 0x29) r3) \<noteq> None"
    unfolding match_inline_cases by blast
  from rest obtain post
    where post: "dropWhile (\<lambda>c. c \<noteq> CHR 0x29) r3 = [CHR 0x29, CHR '';''] @ post"
    using strip_prefix_Some by (cases "strip_prefix [CHR 0x29, CHR '';'']
      (dropWhile (\<lambda>c. c \<noteq> CHR 0x29) r3)") blast+
  have "r3 = takeWhile (\<lambda>c. c \<noteq> CHR 0x29) r3 @ dropWhile (\<lambda>c. c \<noteq> CHR 0x29) r3"
    by simp
  with body post have split: "r3 = json_data @ [CHR 0x29, CHR '';''] @ post"
    by simp
  have no: "CHR 0x29 \<notin> set json_data"
    unfolding body using set_takeWhileD by fastforce
  from r1 have "s = ''inline'' @ r1" by (simp only: strip_prefix_Some)
  moreover from r2 have "r1 = kind_name k @ r2" by (simp only: match_kind_Some)
  moreover from r3 have "r2 = ''Data.push('' @ r3" by (simp only: strip_prefix_Some)
  ultimately have "s = inline_block k json_data @ post"
    using split by (simp add: inline_block_def)
  with ne no show "json_data \<noteq> [] \<and> CHR 0x29 \<notin> set json_data \<and>
      (\<exists>post. s = inline_block k json_data @ post)"
    by blast
next
  assume a: "json_data \<noteq> [] \<and> CHR 0x29 \<notin> set json_data \<and>
      (\<exists>post. s = inline_block k json_data @ post)"
  then obtain post where s: "s = inline_block k json_data @ post" by blast
  let ?r3 = "json_data @ CHR 0x29 # CHR '';'' # post"
  let ?r2 = "''Data.push('' @ ?r3"
  let ?r1 = "kind_name k @ ?r2"
  from a have run: "takeWhile (\<lambda>c. c \<noteq> CHR 0x29) ?r3 = json_data"
    "dropWhile (\<lambda>c. c \<noteq> CHR 0x29) ?r3 = CHR 0x29 # CHR '';'' # post"
    using run_split [of json_data "CHR '';'' # post"] by simp_all
  have p1: "strip_prefix ''inline'' s = Some ?r1"
    by (simp only: strip_prefix_Some) (simp add: s inline_block_def)
  have p2: "match_kind ?r1 = Some (k, ?r2)"
    by (simp only: match_kind_Some)
  have p3: "strip_prefix ''Data.push('' ?r2 = Some ?r3"
    by (simp only: strip_prefix_Some)
  have p4: "strip_prefix [CHR 0x29, CHR '';''] (CHR 0x29 # CHR '';'' # post) = Some post"
    by simp
  from a p1 p2 p3 p4 run show "match_inline s = Some (k, json_data)"
    unfolding match_inline_cases by (intro exI [of _ ?r1] exI [of _ ?r2] exI [of _ ?r3]) simp
qed

text \<open>The search returns the match at the leftmost position that has one.\<close>

lemma search_inline_None:
  "search_inline w = None \<longleftrightarrow> (\<forall>pre s. w = pre @ s \<longrightarrow> match_inline s = None)"
proof (induction w)
  case Nil
  show ?case by (simp add: match_inline_def)
next
  case (Cons c cs)
  show ?case
  proof
    assume none: "search_inline (c # cs) = None"
    then have here: "match_inline (c # cs) = None" and "search_inline cs = None"
      by (simp_all split: option.splits)
    with Cons.IH have later: "\<forall>pre s. cs = pre @ s \<longrightarrow> match_inline s = None" by simp
    show "\<forall>pre s. c # cs = pre @ s \<longrightarrow> match_inline s = None"
    proof (intro allI impI)
      fix pre s
      assume "c # cs = pre @ s"
      then show "match_inline s = None"
        using here later by (cases pre) auto
    qed
  next
    assume all: "\<forall>pre s. c # cs = pre @ s \<longrightarrow> match_inline s = None"
    then have "match_inline (c # cs) = None"
      using all [rule_format, of "[]" "c # cs"] by simp
    moreover have "\<forall>pre s. cs = pre @ s \<longrightarrow> match_inline s = None"
    proof (intro allI impI)
      fix pre s
      assume "cs = pre @ s"
      then show "match_inline s = None"
        using all [rule_format, of "c # pre" s] by simp
    qed
    with Cons.IH have "search_inline cs = None" by simp
    ultimately show "search_inline (c # cs) = None" by simp
  qed
qed

lemma search_inline_Some:
  "search_inline w = Some m \<Longrightarrow>
   \<exists>pre s. w = pre @ s \<and> match_inline s = Some m \<and>
     (\<forall>pre' s'. w = pre' @ s' \<and> length pre' < length pre \<longrightarrow> match_inline s' = None)"
proof (induction w)
  case Nil
  then show ?case by simp
next
  case (Cons c cs)
  show ?case
  proof (cases "match_inline (c # cs)")
    case (Some m')
    with Cons.prems have "c # cs = [] @ (c # cs) \<and> match_inline (c # cs) = Some m \<and>
        (\<forall>pre' s'. c # cs = pre' @ s' \<and> length pre' < length ([] :: string) \<longrightarrow>
           match_inline s' = None)"
      by simp
    then show ?thesis by (intro exI)
  next
    case None
    with Cons.prems have "search_inline cs = Some m" by simp
    from Cons.IH [OF this] obtain pre s where cs: "cs = pre @ s" and m: "match_inline s = Some m"
      and left: "\<forall>pre' s'. cs = pre' @ s' \<and> length pre' < length pre \<longrightarrow> match_inline s' = None"
      by blast
    have "\<forall>pre' s'. c # cs = pre' @ s' \<and> length pre' < length (c # pre) \<longrightarrow>
        match_inline s' = None"
    proof (intro allI impI)
      fix pre' s'
      assume a: "c # cs = pre' @ s' \<and> length pre' < length (c # pre)"
      show "match_inline s' = None"
      proof (cases pre')
        case Nil
        with a None show ?thesis by simp
      next
        case (Cons d ds)
        with a have "cs = ds @ s'" and "length ds < length pre" by simp_all
        with left show ?thesis by blast
      qed
    qed
    moreover from cs have "c # cs = (c # pre) @ s" by simp
    ultimately show ?thesis using m by blast
  qed
qed

text \<open>
  So the search finds nothing exactly on the pages that contain no inline data
  block (with a text that is not empty and has no closing parenthesis).
\<close>

lemma search_inline_None_iff:
  "search_inline w = None \<longleftrightarrow>
     \<not> (\<exists>pre k json_data post.
          json_data \<noteq> [] \<and> CHR 0x29 \<notin> set json_data \<and> w = pre @ inline_block k json_data @ post)"
proof
  assume none: "search_inline w = None"
  show "\<not> (\<exists>pre k json_data post.
      json_data \<noteq> [] \<and> CHR 0x29 \<notin> set json_data \<and> w = pre @ inline_block k json_data @ post)"
  proof
    assume "\<exists>pre k json_data post.
      json_data \<noteq> [] \<and> CHR 0x29 \<notin> set json_data \<and> w = pre @ inline_block k json_data @ post"
    then obtain pre k json_data post where "json_data \<noteq> []" and "CHR 0x29 \<notin> set json_data"
      and w: "w = pre @ inline_block k json_data @ post" by blast
    then have "match_inline (inline_block k json_data @ post) = Some (k, json_data)"
      unfolding match_inline_Some by blast
    moreover from search_inline_None [THEN iffD1, OF none, rule_format, OF w]
    have "match_inline (inline_block k json_data @ post) = None" .
    ultimately show False by simp
  qed
next
  assume no: "\<not> (\<exists>pre k json_data post.
      json_data \<noteq> [] \<and> CHR 0x29 \<notin> set json_data \<and> w = pre @ inline_block k json_data @ post)"
  show "search_inline w = None"
  proof (rule ccontr)
    assume "search_inline w \<noteq> None"
    then obtain k json_data where "search_inline w = Some (k, json_data)" by auto
    from search_inline_Some [OF this] obtain pre s where w: "w = pre @ s"
      and "match_inline s = Some (k, json_data)" by blast
    then obtain post where "json_data \<noteq> []" and "CHR 0x29 \<notin> set json_data"
      and "s = inline_block k json_data @ post"
      unfolding match_inline_Some by blast
    with w no show False by blast
  qed
qed

subsection \<open>Comprehensions and the host's sorting\<close>

lemma comprehension_all:
  "\<forall>x \<in> set xs. f x = Inr (g x) \<Longrightarrow> comprehension f xs = Inr (map g xs)"
  by (induction xs) simp_all

lemma comprehension_some_error:
  "\<exists>x \<in> set xs. \<exists>e. f x = Inl e \<Longrightarrow> \<exists>e. comprehension f xs = Inl e"
proof (induction xs)
  case Nil
  then show ?case by simp
next
  case (Cons x xs)
  show ?case
  proof (cases "f x")
    case (Inl e)
    then show ?thesis by simp
  next
    case (Inr y)
    with Cons.prems have "\<exists>x \<in> set xs. \<exists>e. f x = Inl e" by auto
    from Cons.IH [OF this] obtain e where "comprehension f xs = Inl e" ..
    with Inr show ?thesis by simp
  qed
qed

lemma set_insort_by: "set (insort_by le x xs) = insert x (set xs)"
  by (induction xs) auto

lemma length_insort_by: "length (insort_by le x xs) = Suc (length xs)"
  by (induction xs) simp_all

lemma set_quality_sort: "set (quality_sort le xs) = set xs"
  by (induction xs) (simp_all add: quality_sort_def set_insort_by)

lemma length_quality_sort: "length (quality_sort le xs) = length xs"
  by (induction xs) (simp_all add: quality_sort_def length_insort_by)

lemma sort_formats_Inr:
  "sort_formats h fs = Inr gs \<Longrightarrow> fs \<noteq> [] \<and> gs \<noteq> [] \<and> set gs = set fs \<and> length gs = length fs"
proof -
  assume "sort_formats h fs = Inr gs"
  then have ne: "fs \<noteq> []" and gs: "gs = quality_sort (format_le h) fs"
    by (auto simp: sort_formats_def split: if_splits)
  from gs have len: "length gs = length fs" and "set gs = set fs"
    by (simp_all add: length_quality_sort set_quality_sort)
  moreover from ne len have "gs \<noteq> []" by auto
  ultimately show ?thesis using ne by simp
qed

lemma article_format_has_url:
  "has_url e \<Longrightarrow> article_format h k e = Inr (element_format h k e)"
  by (cases e; cases k)
    (auto simp: has_url_def is_object_def fields_def article_format_def element_format_def
      element_field_def dict_get_def)

lemma article_format_no_url: "\<not> has_url e \<Longrightarrow> \<exists>err. article_format h k e = Inl err"
  by (cases e)
    (auto simp: has_url_def is_object_def fields_def article_format_def split: option.splits)

lemma py_item_has_url: "has_url e \<Longrightarrow> py_item e ''url'' = Inr (element_field e ''url'')"
  by (cases e)
    (auto simp: has_url_def is_object_def fields_def element_field_def dict_get_def)

lemma py_item_no_url: "\<not> has_url e \<Longrightarrow> \<exists>err. py_item e ''url'' = Inl err"
  by (cases e) (auto simp: has_url_def is_object_def fields_def split: option.splits)

lemma abc_result_MediaRecord:
  assumes res: "abc_result h k video_id webpage es = Inr (MediaRecord r)"
  shows "(\<forall>e \<in> set es. has_url e) \<and> rec_formats r \<noteq> [] \<and>
         length (rec_formats r) = length es \<and>
         set (rec_formats r) = set (map (element_format h k) es)"
proof -
  have all: "\<forall>e \<in> set es. has_url e"
  proof (rule ccontr)
    assume "\<not> (\<forall>e \<in> set es. has_url e)"
    then have "\<exists>e \<in> set es. \<exists>err. article_format h k e = Inl err"
      using article_format_no_url by blast
    from comprehension_some_error [OF this]
    obtain err where "comprehension (article_format h k) es = Inl err" ..
    with res show False
      by (simp add: abc_result_def playlist_result_def split: if_splits sum.splits)
  qed
  then have built: "comprehension (article_format h k) es = Inr (map (element_format h k) es)"
    by (intro comprehension_all) (simp add: article_format_has_url)
  from res built obtain gs where "sort_formats h (map (element_format h k) es) = Inr gs"
    and "rec_formats r = gs"
    by (auto simp: abc_result_def playlist_result_def split: if_splits sum.splits)
  with sort_formats_Inr [of h "map (element_format h k) es" gs] all show ?thesis
    by simp
qed

subsection \<open>A page without an inline data block\<close>

text \<open>
  C5. On an article page where the search for
  \<^verbatim>\<open>inline(Video|Audio|YouTube)Data.push(...)\<close> finds nothing (the pages without
  an inline data block, by \<open>search_inline_None_iff\<close>): when the search for the
  expired banner returns a text, the extractor raises an \<^verbatim>\<open>ExtractorError\<close> marked
  \<^verbatim>\<open>expected\<close> whose message is \<^verbatim>\<open>abc.net.au said: \<close> followed by that text,
  unchanged; when it returns nothing (or an empty text), the extractor raises the
  generic \<^verbatim>\<open>ExtractorError\<close>, not marked expected.
\<close>

theorem expired_or_generic_failure:
  assumes "match_id h abc_valid_url url = Some video_id"
    and "download_webpage h url video_id = Inr webpage"
    and "search_inline webpage = None"
  shows "(html_search_regex h expired_re webpage = Some banner \<and> banner \<noteq> []
          \<longrightarrow> abc_real_extract h url =
                Inl (ExtractorError (''abc.net.au said: '' @ banner) True))
       \<and> (html_search_regex h expired_re webpage = None \<or>
          html_search_regex h expired_re webpage = Some []
          \<longrightarrow> abc_real_extract h url =
                Inl (ExtractorError ''Unable to extract video urls'' False))"
  using assms by (auto simp: abc_real_extract_def abc_ie_name_def)

theorem expired_or_generic_failure_witness:
  "abc_real_extract
     ((article_host ''<p class=expired-video><span>This video has expired.</span></p>'' [] JNull)
        \<lparr>html_search_regex := \<lambda>pattern text. Some ''This video has expired.''\<rparr>)
     article_url
     = Inl (ExtractorError ''abc.net.au said: This video has expired.'' True)
   \<and> abc_real_extract (article_host ''<p>Nothing to see</p>'' [] JNull) article_url
     = Inl (ExtractorError ''Unable to extract video urls'' False)"
proof -
  let ?page = "''<p class=expired-video><span>This video has expired.</span></p>''"
  let ?h = "(article_host ?page [] JNull)
              \<lparr>html_search_regex := \<lambda>pattern text. Some ''This video has expired.''\<rparr>"
  have a: "abc_real_extract ?h article_url
      = Inl (ExtractorError ''abc.net.au said: This video has expired.'' True)"
    using expired_or_generic_failure
      [of ?h article_url "''6866214''" ?page "''This video has expired.''"]
    by (simp add: example_host_simps example_defs example_host_def match_inline_def)
  let ?g = "article_host ''<p>Nothing to see</p>'' [] JNull"
  have b: "abc_real_extract ?g article_url
      = Inl (ExtractorError ''Unable to extract video urls'' False)"
    using expired_or_generic_failure [of ?g article_url "''6866214''" "''<p>Nothing to see</p>''"]
    by (simp add: example_host_simps example_defs match_inline_def)
  from a b show ?thesis by simp
qed

subsection \<open>A YouTube data block\<close>

text \<open>
  C7. On an article page whose data block is of kind YouTube and parses to elements
  that all have a \<^verbatim>\<open>url\<close>, the result is the playlist of the redirects to these
  URLs: one per element, in the order of the parsed list (a single object counts as a
  list of one). When some element has no \<^verbatim>\<open>url\<close>, the extraction fails and no
  playlist is returned.
\<close>

theorem youtube_playlist_in_order:
  assumes "match_id h abc_valid_url url = Some video_id"
    and "download_webpage h url video_id = Inr webpage"
    and "search_inline webpage = Some (YouTube, json_data)"
    and "parse_json h (js_to_json h json_data) video_id = Inr parsed"
  shows "((\<forall>e \<in> set (as_list parsed). has_url e)
          \<longrightarrow> abc_real_extract h url =
                Inr (PlaylistRecord (map (\<lambda>e. UrlResult (element_field e ''url'')) (as_list parsed))))
       \<and> ((\<exists>e \<in> set (as_list parsed). \<not> has_url e)
          \<longrightarrow> (\<exists>err. abc_real_extract h url = Inl err))"
proof (intro conjI impI)
  assume "\<forall>e \<in> set (as_list parsed). has_url e"
  then have "comprehension (\<lambda>e. py_item e ''url'') (as_list parsed)
      = Inr (map (\<lambda>e. element_field e ''url'') (as_list parsed))"
    by (intro comprehension_all) (simp add: py_item_has_url)
  with assms show "abc_real_extract h url =
      Inr (PlaylistRecord (map (\<lambda>e. UrlResult (element_field e ''url'')) (as_list parsed)))"
    by (simp add: abc_real_extract_def abc_result_def playlist_result_def url_result_def comp_def)
next
  assume "\<exists>e \<in> set (as_list parsed). \<not> has_url e"
  then have "\<exists>e \<in> set (as_list parsed). \<exists>err. py_item e ''url'' = Inl err"
    using py_item_no_url by blast
  from comprehension_some_error [OF this]
  obtain err where "comprehension (\<lambda>e. py_item e ''url'') (as_list parsed) = Inl err" ..
  with assms show "\<exists>err. abc_real_extract h url = Inl err"
    by (simp add: abc_real_extract_def abc_result_def)
qed

theorem youtube_playlist_in_order_witness:
  "abc_real_extract (article_host (article_page ''YouTube'' youtube_data) youtube_data youtube_parsed)
     article_url
     = Inr (PlaylistRecord [UrlResult (JStr ''http://www.youtube.com/watch?v=NvqvPeNZsHU''),
                            UrlResult (JStr ''http://youtu.be/x'')])
   \<and> (\<exists>err. abc_real_extract
         (article_host (article_page ''YouTube'' ''[{}]'') ''[{}]'' (JList [JObj []])) article_url
         = Inl err)"
proof -
  let ?h = "article_host (article_page ''YouTube'' youtube_data) youtube_data youtube_parsed"
  have a: "abc_real_extract ?h article_url
      = Inr (PlaylistRecord [UrlResult (JStr ''http://www.youtube.com/watch?v=NvqvPeNZsHU''),
                             UrlResult (JStr ''http://youtu.be/x'')])"
    using youtube_playlist_in_order
      [of ?h article_url "''6866214''" "article_page ''YouTube'' youtube_data" youtube_data
          youtube_parsed]
    by (simp add: example_host_simps example_defs notion_defs match_inline_def match_kind_def
        as_list_def)
  let ?g = "article_host (article_page ''YouTube'' ''[{}]'') ''[{}]'' (JList [JObj []])"
  have b: "\<exists>err. abc_real_extract ?g article_url = Inl err"
    using youtube_playlist_in_order
      [of ?g article_url "''6866214''" "article_page ''YouTube'' ''[{}]''" "''[{}]''"
          "JList [JObj []]"]
    by (simp add: example_host_simps example_defs notion_defs match_inline_def match_kind_def
        as_list_def)
  from a b show ?thesis by simp
qed

subsection \<open>A Video or Audio data block\<close>

text \<open>
  C8. The comprehension of lines 85 to 92 builds one MediaFormat per list element,
  in order, each as the specification describes it (\<open>element_format\<close>): the codec of
  the element for kind Video and \<^verbatim>\<open>none\<close> otherwise, the four numbers parsed from the
  fields \<^verbatim>\<open>width\<close>, \<^verbatim>\<open>height\<close>, \<^verbatim>\<open>bitrate\<close> and \<^verbatim>\<open>filesize\<close>. It succeeds
  whenever every element has a \<^verbatim>\<open>url\<close>: the four numeric fields cannot make it
  fail, and a missing one gives null. A MediaRecord that is returned holds these
  formats, reordered by the host.
\<close>

theorem article_formats_per_element:
  "((\<forall>e \<in> set es. has_url e)
      \<longrightarrow> comprehension (article_format h k) es = Inr (map (element_format h k) es))
   \<and> (map_of (fields e) f = None \<longrightarrow> int_or_none h (element_field e f) = None)
   \<and> (abc_result h k video_id webpage es = Inr (MediaRecord r)
      \<longrightarrow> (\<forall>e \<in> set es. has_url e) \<and> length (rec_formats r) = length es \<and>
          set (rec_formats r) = set (map (element_format h k) es))"
proof (intro conjI impI)
  assume "\<forall>e \<in> set es. has_url e"
  then show "comprehension (article_format h k) es = Inr (map (element_format h k) es)"
    by (intro comprehension_all) (simp add: article_format_has_url)
next
  assume "map_of (fields e) f = None"
  then show "int_or_none h (element_field e f) = None"
    by (simp add: int_or_none_def element_field_def dict_get_def)
next
  assume "abc_result h k video_id webpage es = Inr (MediaRecord r)"
  from abc_result_MediaRecord [OF this]
  show "\<forall>e \<in> set es. has_url e" and "length (rec_formats r) = length es"
    and "set (rec_formats r) = set (map (element_format h k) es)"
    by simp_all
qed

theorem article_formats_per_element_witness:
  "comprehension (article_format (example_host [] [] []) Video) [video_parsed]
     = Inr [\<lparr>fmt_url = JStr ''http://a/v.mp4'', fmt_vcodec = JStr ''h264'', fmt_width = Some 640,
            fmt_height = None, fmt_tbr = None, fmt_filesize = None\<rparr>]
   \<and> int_or_none (example_host [] [] []) (element_field video_parsed ''filesize'') = None
   \<and> (\<exists>r. abc_result (example_host [] [] []) Audio ''6866214'' [] [video_parsed]
           = Inr (MediaRecord r) \<and>
          rec_formats r =
            [\<lparr>fmt_url = JStr ''http://a/v.mp4'', fmt_vcodec = JStr ''none'', fmt_width = Some 640,
              fmt_height = None, fmt_tbr = None, fmt_filesize = None\<rparr>])"
proof -
  let ?h = "example_host [] [] []"
  have a: "comprehension (article_format ?h Video) [video_parsed]
     = Inr [\<lparr>fmt_url = JStr ''http://a/v.mp4'', fmt_vcodec = JStr ''h264'', fmt_width = Some 640,
            fmt_height = None, fmt_tbr = None, fmt_filesize = None\<rparr>]"
    and b: "int_or_none ?h (element_field video_parsed ''filesize'') = None"
    using article_formats_per_element [of "[video_parsed]" ?h Video video_parsed "''filesize''"]
    by (simp_all add: example_host_simps example_defs notion_defs int_or_none_def)
  let ?r = "\<lparr>rec_id = ''6866214'', rec_title = JStr ''A title'',
      rec_formats =
        [\<lparr>fmt_url = JStr ''http://a/v.mp4'', fmt_vcodec = JStr ''none'', fmt_width = Some 640,
          fmt_height = None, fmt_tbr = None, fmt_filesize = None\<rparr>],
      rec_description = None, rec_thumbnail = None, rec_duration = None, rec_timestamp = None,
      rec_series = None, rec_series_id = None, rec_episode_number = None, rec_episode = None,
      rec_uploader_id = None, rec_subtitles = None\<rparr>"
  have c: "abc_result ?h Audio ''6866214'' [] [video_parsed] = Inr (MediaRecord ?r)"
    by (simp add: example_host_simps example_defs abc_defs)
  from article_formats_per_element
    [of "[video_parsed]" ?h Audio video_parsed "''filesize''" "''6866214''" "[]" ?r] c
  have "length (rec_formats ?r) = length [video_parsed]"
    by blast
  with a b c show ?thesis by auto
qed

subsection \<open>The order of the quality tiers\<close>

lemma tier_loop_step:
  "tier_loop h stream token video_id (sd # sds) formats =
     (case tier_url stream sd of
        None \<Rightarrow> tier_loop h stream token video_id sds formats
      | Some u \<Rightarrow>
          if tier_manifest h token video_id u \<noteq> []
          then ([tier_request h token u], Some (tier_manifest h token video_id u))
          else (tier_request h token u #
                  fst (tier_loop h stream token video_id sds (Some (tier_manifest h token video_id u))),
                snd (tier_loop h stream token video_id sds (Some (tier_manifest h token video_id u)))))"
  by (simp add: tier_url_def tier_request_def tier_manifest_def Let_def
      split: option.splits prod.splits)

text \<open>
  C2. The loop of lines 150 to 159 asks for the \<^verbatim>\<open>sd\<close> manifest first, when the
  entry has that tier, and stops there when it yields a format. Otherwise (the tier
  is absent, or yields no format) it goes on to \<^verbatim>\<open>sd-low\<close>, asks for its manifest
  when the entry has that tier, and takes what it yields. A tier that is absent is
  skipped without a request. The requests of the whole extraction are the page, the
  token and then these manifests.
\<close>

theorem tier_fallback_order:
  "tier_loop h stream token video_id iview_tiers None =
     (case tier_url stream ''sd'' of
        None \<Rightarrow>
          (case tier_url stream ''sd-low'' of
             None \<Rightarrow> ([], None)
           | Some low \<Rightarrow> ([tier_request h token low], Some (tier_manifest h token video_id low)))
      | Some sd \<Rightarrow>
          if tier_manifest h token video_id sd \<noteq> []
          then ([tier_request h token sd], Some (tier_manifest h token video_id sd))
          else
            (case tier_url stream ''sd-low'' of
               None \<Rightarrow> ([tier_request h token sd], Some [])
             | Some low \<Rightarrow>
                 ([tier_request h token sd, tier_request h token low],
                  Some (tier_manifest h token video_id low))))
   \<and> (match_id h iview_valid_url url = Some video_id \<and>
      download_webpage h url video_id = Inr webpage \<and>
      iview_signing h now video_id webpage = Inr (vp, title, entry, path) \<and>
      download_webpage h (token_url path) video_id = Inr token
      \<longrightarrow> fst (iview_real_extract h now url) =
            PageFetch url # PageFetch (token_url path) #
            fst (tier_loop h (JObj entry) token video_id iview_tiers None))"
proof (intro conjI impI)
  show "tier_loop h stream token video_id iview_tiers None =
     (case tier_url stream ''sd'' of
        None \<Rightarrow>
          (case tier_url stream ''sd-low'' of
             None \<Rightarrow> ([], None)
           | Some low \<Rightarrow> ([tier_request h token low], Some (tier_manifest h token video_id low)))
      | Some sd \<Rightarrow>
          if tier_manifest h token video_id sd \<noteq> []
          then ([tier_request h token sd], Some (tier_manifest h token video_id sd))
          else
            (case tier_url stream ''sd-low'' of
               None \<Rightarrow> ([tier_request h token sd], Some [])
             | Some low \<Rightarrow>
                 ([tier_request h token sd, tier_request h token low],
                  Some (tier_manifest h token video_id low))))"
    unfolding iview_tiers_def tier_loop_step
    by (simp split: option.splits)
next
  assume "match_id h iview_valid_url url = Some video_id \<and>
      download_webpage h url video_id = Inr webpage \<and>
      iview_signing h now video_id webpage = Inr (vp, title, entry, path) \<and>
      download_webpage h (token_url path) video_id = Inr token"
  then show "fst (iview_real_extract h now url) =
            PageFetch url # PageFetch (token_url path) #
            fst (tier_loop h (JObj entry) token video_id iview_tiers None)"
    by (simp add: iview_real_extract_def split: prod.splits)
qed

theorem tier_fallback_order_witness:
  "tier_loop (iview_host JNull) (program_entry both_tiers) ''token'' ''ZW0898A003S00'' iview_tiers None
     = ([ManifestFetch ''http://a/sd.m3u8?hdnea=token'', ManifestFetch ''http://a/low.m3u8?hdnea=token''],
        Some [hls_format ''http://a/low/1.m3u8''])
   \<and> drop 2 (fst (iview_real_extract (iview_host (iview_params [] [program_entry both_tiers]))
                 1514499187 iview_url))
     = [ManifestFetch ''http://a/sd.m3u8?hdnea=token'', ManifestFetch ''http://a/low.m3u8?hdnea=token'']"
proof -
  let ?h = "iview_host (iview_params [] [program_entry both_tiers])"
  let ?vp = "[(''title'', JStr ''Series 5 Ep 3''), (''playlist'', JList [program_entry both_tiers])]"
  let ?path = "signing_path ?h 1514499187 JNull"
  have a: "tier_loop (iview_host JNull) (program_entry both_tiers) ''token'' ''ZW0898A003S00''
      iview_tiers None
     = ([ManifestFetch ''http://a/sd.m3u8?hdnea=token'', ManifestFetch ''http://a/low.m3u8?hdnea=token''],
        Some [hls_format ''http://a/low/1.m3u8''])"
    using tier_fallback_order
      [of "iview_host JNull" "program_entry both_tiers" "''token''" "''ZW0898A003S00''"]
    by (simp add: notion_defs example_host_simps example_defs tokenize_url_def)
  have b: "fst (iview_real_extract ?h 1514499187 iview_url) =
      PageFetch iview_url # PageFetch (token_url ?path) #
      fst (tier_loop ?h (program_entry both_tiers) ''token'' ''ZW0898A003S00'' iview_tiers None)"
    using tier_fallback_order
      [of ?h _ "''token''" "''ZW0898A003S00''" iview_url iview_page 1514499187 ?vp
          "JStr ''Series 5 Ep 3''" "fields (program_entry both_tiers)" ?path]
    by (simp add: notion_defs example_host_simps example_defs iview_signing_def iview_title_def
        select_stream_def token_url_def signing_path_def)
  have c: "tier_loop ?h (program_entry both_tiers) ''token'' ''ZW0898A003S00'' iview_tiers None
      = tier_loop (iview_host JNull) (program_entry both_tiers) ''token'' ''ZW0898A003S00''
          iview_tiers None"
    by (simp add: iview_tiers_def example_host_simps example_defs tokenize_url_def)
  from a b c show ?thesis by simp
qed

subsection \<open>The formats of a returned record\<close>

lemma tier_loop_formats:
  "tier_loop h stream token video_id tiers formats = (requests, Some fs) \<Longrightarrow>
   formats = Some fs \<or>
   (\<exists>u. ManifestFetch u \<in> set requests \<and>
        fs = extract_m3u8_formats h u video_id ''mp4'' ''m3u8_native'' ''hls'')"
proof (induction tiers arbitrary: formats requests)
  case Nil
  then show ?case by simp
next
  case (Cons sd sds)
  show ?case
  proof (cases "tier_url stream sd")
    case None
    with Cons.prems have "tier_loop h stream token video_id sds formats = (requests, Some fs)"
      by (simp add: tier_loop_step del: tier_loop.simps)
    from Cons.IH [OF this] show ?thesis .
  next
    case (Some u)
    let ?m = "tier_manifest h token video_id u"
    show ?thesis
    proof (cases "?m = []")
      case False
      with Some Cons.prems have "requests = [tier_request h token u]" and "fs = ?m"
        by (simp_all add: tier_loop_step del: tier_loop.simps)
      then show ?thesis
        by (auto simp: tier_request_def tier_manifest_def)
    next
      case True
      obtain rs r where rest: "tier_loop h stream token video_id sds (Some ?m) = (rs, r)"
        by (cases "tier_loop h stream token video_id sds (Some ?m)")
      with Some True Cons.prems have req: "requests = tier_request h token u # rs"
        and r: "r = Some fs"
        by (simp_all add: tier_loop_step del: tier_loop.simps)
      from Cons.IH [OF rest [unfolded r]]
      show ?thesis
      proof
        assume "Some ?m = Some fs"
        then have "fs = ?m" by simp
        with req show ?thesis
          by (auto simp: tier_request_def tier_manifest_def)
      next
        assume "\<exists>u. ManifestFetch u \<in> set rs \<and>
            fs = extract_m3u8_formats h u video_id ''mp4'' ''m3u8_native'' ''hls''"
        with req show ?thesis by auto
      qed
    qed
  qed
qed

lemma iview_info_formats:
  "iview_info h video_id webpage vp title fs subtitles = Inr r \<Longrightarrow> rec_formats r = fs"
  by (auto simp: iview_info_def split: sum.splits)

lemma iview_finish_Inr:
  "iview_finish h video_id webpage vp title stream formats = Inr r \<Longrightarrow>
   \<exists>fs. formats = Some fs \<and> sort_formats h fs = Inr (rec_formats r)"
  by (auto simp: iview_finish_def split: option.splits sum.splits dest: iview_info_formats)

lemma iview_real_extract_Inr:
  assumes "iview_real_extract h now url = (requests, Inr r)"
  shows "\<exists>video_id token stream manifests fs.
           tier_loop h stream token video_id iview_tiers None = (manifests, Some fs) \<and>
           set manifests \<subseteq> set requests \<and> sort_formats h fs = Inr (rec_formats r)"
proof -
  from assms obtain video_id webpage vp title stream path token manifests formats
    where loop: "tier_loop h (JObj stream) token video_id iview_tiers None = (manifests, formats)"
      and req: "requests = PageFetch url # PageFetch (token_url path) # manifests"
      and fin: "iview_finish h video_id webpage vp title stream formats = Inr r"
    by (auto simp: iview_real_extract_def split: option.splits sum.splits prod.splits)
  from iview_finish_Inr [OF fin] obtain fs where "formats = Some fs"
    and "sort_formats h fs = Inr (rec_formats r)" by blast
  with loop req
  have "tier_loop h (JObj stream) token video_id iview_tiers None = (manifests, Some fs) \<and>
      set manifests \<subseteq> set requests \<and> sort_formats h fs = Inr (rec_formats r)"
    by auto
  then show ?thesis by blast
qed

lemma abc_real_extract_MediaRecord:
  assumes "abc_real_extract h url = Inr (MediaRecord r)"
  shows "\<exists>video_id webpage k json_data parsed.
           match_id h abc_valid_url url = Some video_id \<and>
           download_webpage h url video_id = Inr webpage \<and>
           search_inline webpage = Some (k, json_data) \<and>
           parse_json h (js_to_json h json_data) video_id = Inr parsed \<and>
           abc_result h k video_id webpage (as_list parsed) = Inr (MediaRecord r)"
  using assms
  by (auto simp: abc_real_extract_def split: option.splits sum.splits prod.splits if_splits)

text \<open>
  C6, as the code has it. A MediaRecord that either extractor returns has at least
  one format. The article extractor makes one format per element of the page data
  and puts the element's \<^verbatim>\<open>url\<close> value into it as it is: nothing checks that it
  is a non-empty string. The formats of the catch-up extractor are those the host's
  manifest parser returned for one of the requested manifests, reordered.
\<close>

theorem returned_formats:
  "(abc_real_extract h url = Inr (MediaRecord r) \<longrightarrow>
      rec_formats r \<noteq> [] \<and>
      (\<exists>video_id webpage k json_data parsed.
         match_id h abc_valid_url url = Some video_id \<and>
         download_webpage h url video_id = Inr webpage \<and>
         search_inline webpage = Some (k, json_data) \<and>
         parse_json h (js_to_json h json_data) video_id = Inr parsed \<and>
         length (rec_formats r) = length (as_list parsed) \<and>
         (\<forall>f \<in> set (rec_formats r).
            \<exists>e \<in> set (as_list parsed). has_url e \<and> fmt_url f = element_field e ''url'')))
   \<and> (iview_real_extract h now url' = (requests, Inr r') \<longrightarrow>
      rec_formats r' \<noteq> [] \<and>
      (\<exists>u video_id.
         ManifestFetch u \<in> set requests \<and>
         set (rec_formats r') =
           set (extract_m3u8_formats h u video_id ''mp4'' ''m3u8_native'' ''hls'')))"
proof (intro conjI impI)
  assume res: "abc_real_extract h url = Inr (MediaRecord r)"
  from abc_real_extract_MediaRecord [OF res]
  obtain video_id webpage k json_data parsed
    where steps: "match_id h abc_valid_url url = Some video_id"
      "download_webpage h url video_id = Inr webpage"
      "search_inline webpage = Some (k, json_data)"
      "parse_json h (js_to_json h json_data) video_id = Inr parsed"
    and built: "abc_result h k video_id webpage (as_list parsed) = Inr (MediaRecord r)"
    by blast
  from abc_result_MediaRecord [OF built]
  have urls: "\<forall>e \<in> set (as_list parsed). has_url e" and ne: "rec_formats r \<noteq> []"
    and len: "length (rec_formats r) = length (as_list parsed)"
    and fs: "set (rec_formats r) = set (map (element_format h k) (as_list parsed))"
    by simp_all
  show "rec_formats r \<noteq> []" by (rule ne)
  have "\<forall>f \<in> set (rec_formats r).
      \<exists>e \<in> set (as_list parsed). has_url e \<and> fmt_url f = element_field e ''url''"
    using urls fs by (auto simp: element_format_def)
  with steps len
  show "\<exists>video_id webpage k json_data parsed.
         match_id h abc_valid_url url = Some video_id \<and>
         download_webpage h url video_id = Inr webpage \<and>
         search_inline webpage = Some (k, json_data) \<and>
         parse_json h (js_to_json h json_data) video_id = Inr parsed \<and>
         length (rec_formats r) = length (as_list parsed) \<and>
         (\<forall>f \<in> set (rec_formats r).
            \<exists>e \<in> set (as_list parsed). has_url e \<and> fmt_url f = element_field e ''url'')"
    by blast
next
  assume res: "iview_real_extract h now url' = (requests, Inr r')"
  from iview_real_extract_Inr [OF res]
  obtain video_id token stream manifests fs
    where loop: "tier_loop h stream token video_id iview_tiers None = (manifests, Some fs)"
      and sub: "set manifests \<subseteq> set requests"
      and sorted: "sort_formats h fs = Inr (rec_formats r')"
    by blast
  from sort_formats_Inr [OF sorted]
  have ne: "rec_formats r' \<noteq> []" and eq: "set (rec_formats r') = set fs" by simp_all
  show "rec_formats r' \<noteq> []" by (rule ne)
  from tier_loop_formats [OF loop]
  obtain u where "ManifestFetch u \<in> set manifests"
    and "fs = extract_m3u8_formats h u video_id ''mp4'' ''m3u8_native'' ''hls''"
    by auto
  with sub eq
  show "\<exists>u video_id.
         ManifestFetch u \<in> set requests \<and>
         set (rec_formats r') =
           set (extract_m3u8_formats h u video_id ''mp4'' ''m3u8_native'' ''hls'')"
    by blast
qed

theorem returned_formats_witness:
  "(\<exists>r. abc_real_extract (article_host (article_page ''Video'' video_data) video_data video_parsed)
           article_url = Inr (MediaRecord r) \<and> rec_formats r \<noteq> [])
   \<and> (\<exists>requests r.
         iview_real_extract (iview_host (iview_params [] [program_entry both_tiers]))
           1514499187 iview_url = (requests, Inr r) \<and> rec_formats r \<noteq> [])"
proof -
  let ?h = "article_host (article_page ''Video'' video_data) video_data video_parsed"
  obtain x where x: "abc_real_extract ?h article_url = Inr (MediaRecord x)"
    by (simp add: example_host_simps example_defs abc_defs)
  let ?g = "iview_host (iview_params [] [program_entry both_tiers])"
  obtain requests y where y: "iview_real_extract ?g 1514499187 iview_url = (requests, Inr y)"
    by (simp add: example_host_simps example_defs iview_defs)
  from returned_formats [of ?h article_url x] x have "rec_formats x \<noteq> []"
    by blast
  moreover from returned_formats [of ?g _ _ 1514499187 iview_url requests y] y
  have "rec_formats y \<noteq> []"
    by blast
  ultimately have "rec_formats x \<noteq> []" and "rec_formats y \<noteq> []"
    by simp_all
  with x y show ?thesis by blast
qed

theorem empty_url_format_counterexample:
  "abc_real_extract (article_host (article_page ''Video'' empty_url_data) empty_url_data empty_url_parsed)
     article_url
   = Inr (MediaRecord
       \<lparr>rec_id = ''6866214'', rec_title = JStr ''A title'',
        rec_formats =
          [\<lparr>fmt_url = JStr [], fmt_vcodec = JNull, fmt_width = None, fmt_height = None,
            fmt_tbr = None, fmt_filesize = None\<rparr>],
        rec_description = None, rec_thumbnail = None, rec_duration = None, rec_timestamp = None,
        rec_series = None, rec_series_id = None, rec_episode_number = None, rec_episode = None,
        rec_uploader_id = None, rec_subtitles = None\<rparr>)"
  by (simp add: example_host_simps example_defs abc_defs)

subsection \<open>The signing step\<close>

lemma iview_signing_path:
  "iview_signing h now video_id webpage = Inr (vp, title, stream, path) \<Longrightarrow>
   path = signing_path h now (dict_get vp ''episodeHouseNumber'')"
  by (auto simp: iview_signing_def split: sum.splits json.splits)

lemma iview_signing_clock:
  "iview_signing h t2 video_id webpage =
     (case iview_signing h t1 video_id webpage of
        Inl e \<Rightarrow> Inl e
      | Inr (vp, title, stream, path) \<Rightarrow>
          Inr (vp, title, stream, signing_path h t2 (dict_get vp ''episodeHouseNumber'')))"
  by (auto simp: iview_signing_def split: sum.splits json.splits)

lemma iview_requests_prefix:
  assumes "match_id h iview_valid_url url = Some video_id"
    and "download_webpage h url video_id = Inr webpage"
    and "iview_signing h now video_id webpage = Inr (vp, title, stream, path)"
  shows "take 2 (fst (iview_real_extract h now url)) = [PageFetch url, PageFetch (token_url path)]"
  using assms by (simp add: iview_real_extract_def split: sum.splits prod.splits)

text \<open>
  C9. The clock enters \<^verbatim>\<open>ABCIViewIE._real_extract\<close> only through the address of
  the token request. When the token endpoint answers the requests signed at two
  times alike, the two extractions of the same page by the same host end alike: the
  same MediaRecord or the same error. (\<^verbatim>\<open>ABCIE._real_extract\<close> reads no clock and
  keeps no state: \<open>abc_real_extract\<close> is a function of the host's answers and the
  URL alone.)
\<close>

theorem result_independent_of_clock:
  assumes "\<forall>house_number video_id.
             download_webpage h (token_url (signing_path h t1 house_number)) video_id =
             download_webpage h (token_url (signing_path h t2 house_number)) video_id"
  shows "snd (iview_real_extract h t1 url) = snd (iview_real_extract h t2 url)"
proof (cases "match_id h iview_valid_url url")
  case None
  then show ?thesis by (simp add: iview_real_extract_def)
next
  case (Some video_id)
  note vid = this
  show ?thesis
  proof (cases "download_webpage h url video_id")
    case (Inl e)
    with vid show ?thesis by (simp add: iview_real_extract_def)
  next
    case (Inr webpage)
    note page = this
    show ?thesis
    proof (cases "iview_signing h t1 video_id webpage")
      case (Inl e)
      then have "iview_signing h t2 video_id webpage = Inl e"
        by (simp add: iview_signing_clock [of h t2 video_id webpage t1])
      with Inl vid page show ?thesis by (simp add: iview_real_extract_def)
    next
      case (Inr conf)
      obtain vp title stream path where conf: "conf = (vp, title, stream, path)"
        by (cases conf)
      let ?hn = "dict_get vp ''episodeHouseNumber''"
      from Inr conf have s1: "iview_signing h t1 video_id webpage =
          Inr (vp, title, stream, signing_path h t1 ?hn)"
        using iview_signing_path [of h t1 video_id webpage vp title stream path] by simp
      then have s2: "iview_signing h t2 video_id webpage =
          Inr (vp, title, stream, signing_path h t2 ?hn)"
        by (simp add: iview_signing_clock [of h t2 video_id webpage t1])
      from assms have tok:
        "download_webpage h (token_url (signing_path h t1 ?hn)) video_id =
         download_webpage h (token_url (signing_path h t2 ?hn)) video_id"
        by blast
      show ?thesis
        using vid page s1 s2 tok
        by (simp add: iview_real_extract_def split: sum.splits prod.splits)
    qed
  qed
qed

theorem result_independent_of_clock_witness:
  "snd (iview_real_extract (iview_host (iview_params [] [program_entry both_tiers])) 1514499187 iview_url)
   = snd (iview_real_extract (iview_host (iview_params [] [program_entry both_tiers])) 1514499999 iview_url)"
proof -
  let ?h = "iview_host (iview_params [] [program_entry both_tiers])"
  have "\<forall>house_number video_id.
      download_webpage ?h (token_url (signing_path ?h 1514499187 house_number)) video_id =
      download_webpage ?h (token_url (signing_path ?h 1514499999 house_number)) video_id"
    by (simp add: example_host_simps example_defs token_url_def signing_path_def)
  from result_independent_of_clock [OF this] show ?thesis .
qed

text \<open>
  C10. When the configuration has no \<^verbatim>\<open>episodeHouseNumber\<close>, \<^verbatim>\<open>.get\<close> gives
  \<^verbatim>\<open>None\<close>, which \<^verbatim>\<open>str.format\<close> prints as \<^verbatim>\<open>None\<close>: the signing path ends in
  \<^verbatim>\<open>&hn=None&d=android-mobile\<close>, and the second request of the extraction is the
  token request for that path with the HMAC of that path.
\<close>

theorem missing_house_number_signs_None:
  assumes "match_id h iview_valid_url url = Some video_id"
    and "download_webpage h url video_id = Inr webpage"
    and "iview_signing h now video_id webpage = Inr (vp, title, stream, path)"
    and "map_of vp ''episodeHouseNumber'' = None"
  shows "path = ''/auth/hls/sign?ts='' @ dec_int now @ ''&hn=None&d=android-mobile''
       \<and> take 2 (fst (iview_real_extract h now url)) =
           [PageFetch url,
            PageFetch (''http://iview.abc.net.au'' @ path @ ''&sig='' @
              hexdigest (hmac_sha256 (encode ''android.content.res.Resources'') (encode path)))]"
proof -
  from assms(3,4) have "path = ''/auth/hls/sign?ts='' @ dec_int now @ ''&hn=None&d=android-mobile''"
    using iview_signing_path [of h now video_id webpage vp title stream path]
    by (simp add: signing_path_def py_format_def dict_get_def)
  moreover from iview_requests_prefix [OF assms(1-3)]
  have "take 2 (fst (iview_real_extract h now url)) =
      [PageFetch url,
       PageFetch (''http://iview.abc.net.au'' @ path @ ''&sig='' @
         hexdigest (hmac_sha256 (encode ''android.content.res.Resources'') (encode path)))]"
    by (simp add: token_url_def signature_def)
  ultimately show ?thesis by simp
qed

theorem missing_house_number_signs_None_witness:
  "take 2 (fst (iview_real_extract (iview_host (iview_params [] [program_entry both_tiers]))
                 1514499187 iview_url))
   = [PageFetch iview_url,
      PageFetch (''http://iview.abc.net.au/auth/hls/sign?ts=1514499187&hn=None&d=android-mobile&sig='' @
        hexdigest (hmac_sha256 (encode ''android.content.res.Resources'')
          (encode ''/auth/hls/sign?ts=1514499187&hn=None&d=android-mobile'')))]"
proof -
  let ?h = "iview_host (iview_params [] [program_entry both_tiers])"
  let ?vp = "[(''title'', JStr ''Series 5 Ep 3''), (''playlist'', JList [program_entry both_tiers])]"
  let ?path = "''/auth/hls/sign?ts=1514499187&hn=None&d=android-mobile''"
  have sign: "iview_signing ?h 1514499187 ''ZW0898A003S00'' iview_page =
      Inr (?vp, JStr ''Series 5 Ep 3'', fields (program_entry both_tiers), ?path)"
    by (simp add: example_host_simps example_defs notion_defs iview_signing_def iview_title_def
        select_stream_def signing_path_def py_format_def dec_int_def)
  from missing_house_number_signs_None
    [of ?h iview_url "''ZW0898A003S00''" iview_page 1514499187 ?vp "JStr ''Series 5 Ep 3''"
        "fields (program_entry both_tiers)" ?path] sign
  show ?thesis
    by (simp add: example_host_simps example_defs)
qed

subsection \<open>The shape of a digest\<close>

lemma length_rounds: "length s = 8 \<Longrightarrow> length (rounds s ks ws) = 8"
  by (induction s ks ws rule: rounds.induct) (simp_all add: Let_def)

lemma length_compress: "length hs = 8 \<Longrightarrow> length (compress hs m) = 8"
  by (simp add: compress_def length_rounds)

lemma length_digest_blocks: "length hs = 8 \<Longrightarrow> length (digest_blocks n hs bs) = 8"
  by (induction n arbitrary: hs bs) (simp_all add: length_compress)

lemma length_concat_uniform:
  "\<forall>xs \<in> set xss. length xs = n \<Longrightarrow> length (concat xss) = n * length xss"
  by (induction xss) simp_all

lemma length_sha256: "length (sha256 m) = 32"
proof -
  let ?ws = "digest_blocks (length (sha256_pad m) div 64) sha256_h0 (sha256_pad m)"
  have "length ?ws = 8"
    by (rule length_digest_blocks) (simp add: sha256_h0_def)
  moreover have "length (concat (map (be_bytes 4) ?ws)) = 4 * length (map (be_bytes 4) ?ws)"
    by (rule length_concat_uniform) (auto simp: be_bytes_def)
  ultimately show ?thesis
    by (simp add: sha256_def Let_def)
qed

lemma sha256_bytes: "b \<in> set (sha256 m) \<Longrightarrow> 0 \<le> b \<and> b < 256"
  by (auto simp: sha256_def Let_def be_bytes_def)

lemma hex_digit_lowercase:
  assumes "0 \<le> n" and "n < 16"
  shows "hex_digit n \<in> set ''0123456789abcdef''"
proof -
  from assms have "nat n < length ''0123456789abcdef''" by simp
  then show ?thesis
    unfolding hex_digit_def by (rule nth_mem)
qed

lemma length_hexdigest: "length (hexdigest bs) = 2 * length bs"
  unfolding hexdigest_def by (induction bs) simp_all

lemma hexdigest_lowercase:
  assumes "\<forall>b \<in> set bs. 0 \<le> b \<and> b < 256"
  shows "set (hexdigest bs) \<subseteq> set ''0123456789abcdef''"
proof
  fix c
  assume "c \<in> set (hexdigest bs)"
  then obtain b where b: "b \<in> set bs" and c: "c = hex_digit (b div 16) \<or> c = hex_digit (b mod 16)"
    by (auto simp: hexdigest_def)
  from b assms have "0 \<le> b" and "b < 256" by auto
  then have "0 \<le> b div 16" and "b div 16 < 16" and "0 \<le> b mod 16" and "b mod 16 < 16"
    by simp_all
  with c show "c \<in> set ''0123456789abcdef''"
    using hex_digit_lowercase by blast
qed

lemma signature_shape:
  "length (signature path) = 64 \<and> set (signature path) \<subseteq> set ''0123456789abcdef''"
proof -
  let ?d = "hmac_sha256 (encode ''android.content.res.Resources'') (encode path)"
  have len: "length ?d = 32"
    by (simp add: hmac_sha256_def Let_def length_sha256)
  have "\<forall>b \<in> set ?d. 0 \<le> b \<and> b < 256"
    unfolding hmac_sha256_def Let_def using sha256_bytes by blast
  from hexdigest_lowercase [OF this] len show ?thesis
    by (simp add: signature_def length_hexdigest)
qed

section \<open>Reference vector\<close>

text \<open>
  The digests of the model against published values: SHA-256 of \<^verbatim>\<open>abc\<close>
  (FIPS 180-4), HMAC-SHA256 of test case 2 of RFC 4231, and the signature of the
  signing path of one episode at one time, as \<^verbatim>\<open>hmac\<close> and \<^verbatim>\<open>hashlib\<close> compute it.
\<close>

lemma sha256_abc:
  "hexdigest (sha256 (encode ''abc'')) =
     ''ba7816bf8f01cfea414140de5dae2223b00361a396177a9cb410ff61f20015ad''"
  by code_simp

lemma hmac_sha256_rfc4231_case2:
  "hexdigest (hmac_sha256 (encode ''Jefe'') (encode ''what do ya want for nothing?'')) =
     ''5bdcc146bf60754e6a042426089575c75a003f089d2739839dec58b964ec3843''"
  by code_simp

lemma signature_reference_vector:
  "signature ''/auth/hls/sign?ts=1514499187&hn=ZW0898A003S00&d=android-mobile'' =
     ''7678c12bf5fe5e652ba34ffb42dbd56874cfc563b8b7fd470b50a23a6a2d0b17''"
  by code_simp

text \<open>
  C1. On every catch-up page that gets as far as the signing step, the path is
  \<^verbatim>\<open>/auth/hls/sign?ts=<now>&hn=<house number>&d=android-mobile\<close> (the house number
  itself when it is a string), the second request of the extraction is the token
  request for the path followed by \<^verbatim>\<open>&sig=\<close> and the signature, and the signature
  is the HMAC-SHA256 of the path under the key \<^verbatim>\<open>android.content.res.Resources\<close>
  as 64 lowercase hexadecimal digits: a function of the path alone, which takes the
  reference value at the reference path.
\<close>

theorem signature_is_hmac_of_path:
  assumes "match_id h iview_valid_url url = Some video_id"
    and "download_webpage h url video_id = Inr webpage"
    and "iview_signing h now video_id webpage = Inr (vp, title, stream, path)"
  shows "path = ''/auth/hls/sign?ts='' @ dec_int now @ ''&hn='' @
                  py_format h (dict_get vp ''episodeHouseNumber'') @ ''&d=android-mobile''
       \<and> (\<forall>s. map_of vp ''episodeHouseNumber'' = Some (JStr s) \<longrightarrow>
               path = ''/auth/hls/sign?ts='' @ dec_int now @ ''&hn='' @ s @ ''&d=android-mobile'')
       \<and> take 2 (fst (iview_real_extract h now url)) =
           [PageFetch url, PageFetch (''http://iview.abc.net.au'' @ path @ ''&sig='' @ signature path)]
       \<and> signature path =
           hexdigest (hmac_sha256 (encode ''android.content.res.Resources'') (encode path))
       \<and> length (signature path) = 64
       \<and> set (signature path) \<subseteq> set ''0123456789abcdef''
       \<and> signature ''/auth/hls/sign?ts=1514499187&hn=ZW0898A003S00&d=android-mobile'' =
           ''7678c12bf5fe5e652ba34ffb42dbd56874cfc563b8b7fd470b50a23a6a2d0b17''"
proof -
  from iview_signing_path [OF assms(3)]
  have path: "path = ''/auth/hls/sign?ts='' @ dec_int now @ ''&hn='' @
      py_format h (dict_get vp ''episodeHouseNumber'') @ ''&d=android-mobile''"
    by (simp add: signing_path_def)
  then have str: "\<forall>s. map_of vp ''episodeHouseNumber'' = Some (JStr s) \<longrightarrow>
      path = ''/auth/hls/sign?ts='' @ dec_int now @ ''&hn='' @ s @ ''&d=android-mobile''"
    by (simp add: py_format_def dict_get_def)
  from iview_requests_prefix [OF assms]
  have req: "take 2 (fst (iview_real_extract h now url)) =
      [PageFetch url, PageFetch (''http://iview.abc.net.au'' @ path @ ''&sig='' @ signature path)]"
    by (simp add: token_url_def)
  have sig: "signature path =
      hexdigest (hmac_sha256 (encode ''android.content.res.Resources'') (encode path))"
    by (simp add: signature_def)
  from path str req sig signature_shape [of path] signature_reference_vector
  show ?thesis by blast
qed

theorem signature_is_hmac_of_path_witness:
  "take 2 (fst (iview_real_extract
       (iview_host (iview_params [(''episodeHouseNumber'', JStr ''ZW0898A003S00'')]
          [program_entry both_tiers]))
       1514499187 iview_url))
   = [PageFetch iview_url,
      PageFetch (''http://iview.abc.net.au/auth/hls/sign?ts=1514499187&hn=ZW0898A003S00'' @
        ''&d=android-mobile&sig=7678c12bf5fe5e652ba34ffb42dbd56874cfc563b8b7fd470b50a23a6a2d0b17'')]"
proof -
  let ?params = "iview_params [(''episodeHouseNumber'', JStr ''ZW0898A003S00'')] [program_entry both_tiers]"
  let ?h = "iview_host ?params"
  let ?path = "''/auth/hls/sign?ts=1514499187&hn=ZW0898A003S00&d=android-mobile''"
  have sign: "iview_signing ?h 1514499187 ''ZW0898A003S00'' iview_page =
      Inr (fields ?params, JStr ''Series 5 Ep 3'', fields (program_entry both_tiers), ?path)"
    by (simp add: example_host_simps example_defs notion_defs iview_signing_def iview_title_def
        select_stream_def signing_path_def py_format_def dec_int_def)
  have steps: "match_id ?h iview_valid_url iview_url = Some ''ZW0898A003S00''"
    "download_webpage ?h iview_url ''ZW0898A003S00'' = Inr iview_page"
    by (simp_all add: example_host_simps example_defs)
  from signature_is_hmac_of_path [OF steps sign]
  have "take 2 (fst (iview_real_extract ?h 1514499187 iview_url)) =
      [PageFetch iview_url, PageFetch (''http://iview.abc.net.au'' @ ?path @ ''&sig='' @ signature ?path)]"
    and "signature ?path = ''7678c12bf5fe5e652ba34ffb42dbd56874cfc563b8b7fd470b50a23a6a2d0b17''"
    by blast+
  then show ?thesis
    by (simp add: iview_url_def)
qed

end
